theory Spec2Isabelle
  imports
    Main
    "HOL-Library.Sublist"
    "HOL-Library.Char_ord"
    "HOL-Library.List_Lexorder"
    "HOL-Library.Product_Lexorder"
    "HOL-Library.Multiset"
    "HOL-Library.AList"
begin

section \<open>Python strings\<close>

text \<open>
  A Python \<open>str\<close> is modelled as a \<open>string\<close>: the bytes of its UTF-8 encoding, so that ASCII
  text is the list of its characters and every other character is a sequence of bytes from
  128 on. Searching, splitting, stripping and comparing ASCII delimiters give the same result
  on the bytes as on the characters.

  Three answers of the Python library are not computed but are parameters of the model:
  \<open>unicode_lower\<close> is \<open>str.lower\<close> on text that is not all ASCII, \<open>bracketed_host_ok\<close> tells
  whether \<open>_check_bracketed_host\<close> accepts the content of a bracketed host (it asks the
  \<open>ipaddress\<close> module), and \<open>nfkc_netloc_ok\<close> tells whether \<open>_checknetloc\<close> accepts a network
  location that is not all ASCII (it asks \<open>unicodedata\<close> for the NFKC form). Everything
  else is computed, and on ASCII text without square brackets nothing depends on the
  parameters.
\<close>

record pylib =
  unicode_lower :: "string \<Rightarrow> string"
  bracketed_host_ok :: "string \<Rightarrow> bool"
  nfkc_netloc_ok :: "string \<Rightarrow> bool"

text \<open>The exceptions: \<open>ValueError\<close> and \<open>AttributeError\<close> as in Python, \<open>PageError\<close> for what the
  browser and the extractors raise, \<open>HeadError\<close> for what \<open>requests.head\<close> raises that is not a
  \<open>RequestException\<close>.\<close>

datatype error = ValueError | AttributeError | PageError | HeadError

definition ascii_uppercase :: string where
  "ascii_uppercase = ''ABCDEFGHIJKLMNOPQRSTUVWXYZ''"

definition ascii_lowercase :: string where
  "ascii_lowercase = ''abcdefghijklmnopqrstuvwxyz''"

definition lower_char :: "char \<Rightarrow> char" where
  "lower_char c =
     (case map_of (zip ascii_uppercase ascii_lowercase) c of Some d \<Rightarrow> d | None \<Rightarrow> c)"

text \<open>\<open>s.isascii()\<close>, and \<open>s.lower()\<close>: on ASCII text the letters A to Z are changed.\<close>

definition isascii :: "string \<Rightarrow> bool" where
  "isascii s = list_all (\<lambda>c. of_char c < (128::nat)) s"

definition ascii_lower :: "string \<Rightarrow> string" where
  "ascii_lower s = map lower_char s"

definition py_lower :: "pylib \<Rightarrow> string \<Rightarrow> string" where
  "py_lower lib s = (if isascii s then ascii_lower s else unicode_lower lib s)"

text \<open>\<open>s.startswith(t)\<close> is \<open>prefix t s\<close>, \<open>s.endswith(t)\<close> is \<open>suffix t s\<close> and
  \<open>t in s\<close> on strings is \<open>sublist t s\<close>.\<close>

definition rstrip_char :: "char \<Rightarrow> string \<Rightarrow> string" where
  "rstrip_char d s = rev (dropWhile (\<lambda>c. c = d) (rev s))"

definition replace_char :: "char \<Rightarrow> char \<Rightarrow> string \<Rightarrow> string" where
  "replace_char a b s = map (\<lambda>c. if c = a then b else c) s"

text \<open>\<open>s.partition(d)\<close> for a single character: the text before the first \<open>d\<close> and the
  text after it (empty when \<open>d\<close> does not occur).\<close>

definition before_char :: "char \<Rightarrow> string \<Rightarrow> string" where
  "before_char d s = takeWhile (\<lambda>c. c \<noteq> d) s"

definition after_char :: "char \<Rightarrow> string \<Rightarrow> string" where
  "after_char d s = drop 1 (dropWhile (\<lambda>c. c \<noteq> d) s)"

text \<open>\<open>s.split(d)\<close> for a single character \<open>d\<close>: never the empty list.\<close>

fun split_char :: "char \<Rightarrow> string \<Rightarrow> string list" where
  "split_char d [] = [[]]"
| "split_char d (c # cs) =
     (if c = d then [] # split_char d cs
      else (case split_char d cs of
              [] \<Rightarrow> [[c]]
            | w # ws \<Rightarrow> (c # w) # ws))"

text \<open>\<open>sep.join(parts)\<close>.\<close>

fun join :: "string \<Rightarrow> string list \<Rightarrow> string" where
  "join sep [] = []"
| "join sep [w] = w"
| "join sep (w # v # ws) = w @ sep @ join sep (v # ws)"

text \<open>The text before and after the first occurrence of a non-empty separator string, if
  there is one: \<open>s.partition(sep)\<close>.\<close>

fun partition_str :: "string \<Rightarrow> string \<Rightarrow> (string \<times> string) option" where
  "partition_str sep [] = None"
| "partition_str sep (c # cs) =
     (if prefix sep (c # cs) then Some ([], drop (length sep) (c # cs))
      else map_option (\<lambda>(a, b). (c # a, b)) (partition_str sep cs))"

section \<open>urllib.parse\<close>

text \<open>
  The functions of Python's \<open>urllib.parse\<close> that the scraper calls, as CPython 3.11
  defines them. The library parameter \<open>lib\<close> answers the two checks of the network location.
\<close>

record parse_result =
  scheme :: string
  netloc :: string
  path :: string
  params :: string
  query :: string
  fragment :: string

definition c0_control_or_space :: "char \<Rightarrow> bool" where
  "c0_control_or_space c = (of_char c \<le> (32::nat))"

definition unsafe_url_byte :: "char \<Rightarrow> bool" where
  "unsafe_url_byte c = (of_char c \<in> {9::nat, 10, 13})"

definition ascii_alpha :: "char \<Rightarrow> bool" where
  "ascii_alpha c = ((CHR ''a'' \<le> c \<and> c \<le> CHR ''z'') \<or> (CHR ''A'' \<le> c \<and> c \<le> CHR ''Z''))"

definition ascii_digit :: "char \<Rightarrow> bool" where
  "ascii_digit c = (CHR ''0'' \<le> c \<and> c \<le> CHR ''9'')"

definition scheme_char :: "char \<Rightarrow> bool" where
  "scheme_char c = (ascii_alpha c \<or> ascii_digit c \<or> c \<in> set ''+-.'')"

definition uses_params :: "string list" where
  "uses_params = ['''', ''ftp'', ''hdl'', ''prospero'', ''http'', ''imap'', ''https'',
     ''shttp'', ''rtsp'', ''rtsps'', ''rtspu'', ''sip'', ''sips'', ''mms'', ''sftp'', ''tel'']"

definition uses_netloc :: "string list" where
  "uses_netloc = ['''', ''ftp'', ''http'', ''gopher'', ''nntp'', ''telnet'', ''imap'', ''wais'',
     ''file'', ''mms'', ''https'', ''shttp'', ''snews'', ''prospero'', ''rtsp'', ''rtsps'',
     ''rtspu'', ''rsync'', ''svn'', ''svn+ssh'', ''sftp'', ''nfs'', ''git'', ''git+ssh'',
     ''ws'', ''wss'']"

definition uses_relative :: "string list" where
  "uses_relative = ['''', ''ftp'', ''http'', ''gopher'', ''nntp'', ''imap'', ''wais'', ''file'',
     ''https'', ''shttp'', ''mms'', ''prospero'', ''rtsp'', ''rtsps'', ''rtspu'', ''sftp'',
     ''svn'', ''svn+ssh'', ''ws'', ''wss'']"

text \<open>The scheme of a URL and the rest after its colon, when the text before the first
  colon is a scheme; otherwise the default scheme and the whole URL. The scheme is
  \<open>url[:i].lower()\<close>, of text that is made of scheme characters and so is ASCII.\<close>

definition split_scheme :: "string \<Rightarrow> string \<Rightarrow> string \<times> string" where
  "split_scheme dflt url =
     (let s = before_char CHR '':'' url in
      if CHR '':'' \<in> set url \<and> s \<noteq> [] \<and> ascii_alpha (hd url) \<and> list_all scheme_char s
      then (ascii_lower s, after_char CHR '':'' url)
      else (dflt, url))"

definition netloc_delim :: "char \<Rightarrow> bool" where
  "netloc_delim c = (c \<in> set ''/?#'')"

text \<open>\<open>_splitnetloc(url, 2)\<close> on a URL that starts with two slashes.\<close>

definition splitnetloc :: "string \<Rightarrow> string \<times> string" where
  "splitnetloc url =
     (takeWhile (\<lambda>c. \<not> netloc_delim c) (drop 2 url),
      dropWhile (\<lambda>c. \<not> netloc_delim c) (drop 2 url))"

text \<open>The checks of the network location, each of which raises \<open>ValueError\<close>: a bracket
  without its partner, a bracketed host that is no IP literal, and \<open>_checknetloc\<close>, which
  returns at once when the network location is empty or ASCII.\<close>

definition netloc_ok :: "pylib \<Rightarrow> string \<Rightarrow> bool" where
  "netloc_ok lib nl =
     ((if CHR ''['' \<in> set nl \<and> CHR '']'' \<in> set nl
       then bracketed_host_ok lib (before_char CHR '']'' (after_char CHR ''['' nl))
       else CHR ''['' \<notin> set nl \<and> CHR '']'' \<notin> set nl)
      \<and> (nl = [] \<or> isascii nl \<or> nfkc_netloc_ok lib nl))"

definition urlsplit :: "pylib \<Rightarrow> string \<Rightarrow> string \<Rightarrow> error + parse_result" where
  "urlsplit lib url0 dflt0 =
     (let url1 = filter (\<lambda>c. \<not> unsafe_url_byte c) (dropWhile c0_control_or_space url0);
          dflt = filter (\<lambda>c. \<not> unsafe_url_byte c)
                   (rev (dropWhile c0_control_or_space
                      (rev (dropWhile c0_control_or_space dflt0))));
          (sch, url2) = split_scheme dflt url1;
          (nl, url3) = (if take 2 url2 = ''//'' then splitnetloc url2 else ([], url2))
      in if \<not> netloc_ok lib nl then Inl ValueError
         else
           let frag = after_char CHR ''#'' url3;
               url4 = before_char CHR ''#'' url3;
               qry = after_char CHR ''?'' url4;
               url5 = before_char CHR ''?'' url4
           in Inr \<lparr>scheme = sch, netloc = nl, path = url5, params = [],
                    query = qry, fragment = frag\<rparr>)"

text \<open>\<open>_splitparams\<close>: the parameters are what follows the first semicolon of the last
  path segment.\<close>

definition last_segment :: "string \<Rightarrow> string" where
  "last_segment p = rev (takeWhile (\<lambda>c. c \<noteq> CHR ''/'') (rev p))"

definition splitparams :: "string \<Rightarrow> string \<times> string" where
  "splitparams p =
     (let seg = last_segment p; front = take (length p - length seg) p
      in if CHR '';'' \<in> set seg
         then (front @ before_char CHR '';'' seg, after_char CHR '';'' seg)
         else (p, []))"

definition urlparse_scheme :: "pylib \<Rightarrow> string \<Rightarrow> string \<Rightarrow> error + parse_result" where
  "urlparse_scheme lib url dflt =
     (case urlsplit lib url dflt of
        Inl e \<Rightarrow> Inl e
      | Inr r \<Rightarrow>
          if scheme r \<in> set uses_params \<and> CHR '';'' \<in> set (path r)
          then Inr (r\<lparr>path := fst (splitparams (path r)), params := snd (splitparams (path r))\<rparr>)
          else Inr r)"

definition urlparse :: "pylib \<Rightarrow> string \<Rightarrow> error + parse_result" where
  "urlparse lib url = urlparse_scheme lib url []"


subsection \<open>Percent-escapes\<close>

definition hexdig :: "char \<Rightarrow> bool" where
  "hexdig c = (ascii_digit c \<or> (CHR ''a'' \<le> c \<and> c \<le> CHR ''f'') \<or> (CHR ''A'' \<le> c \<and> c \<le> CHR ''F''))"

definition hexval :: "char \<Rightarrow> nat" where
  "hexval c =
     (if ascii_digit c then of_char c - 48
      else if CHR ''a'' \<le> c \<and> c \<le> CHR ''f'' then of_char c - 87
      else of_char c - 55)"

fun unquote_to_bytes :: "string \<Rightarrow> string" where
  "unquote_to_bytes [] = []"
| "unquote_to_bytes (c # cs) =
     (if c = CHR ''%'' then
        (case cs of
           a # b # rest \<Rightarrow>
             if hexdig a \<and> hexdig b then char_of (16 * hexval a + hexval b) # unquote_to_bytes rest
             else c # unquote_to_bytes cs
         | _ \<Rightarrow> c # unquote_to_bytes cs)
      else c # unquote_to_bytes cs)"

text \<open>
  \<open>bytes.decode('utf-8', 'replace')\<close>, with the decoded text kept as its UTF-8 bytes: every
  maximal ill-formed byte sequence becomes U+FFFD (the bytes EF BF BD), and well-formed
  sequences are kept.
\<close>

definition utf8_cont :: "char \<Rightarrow> bool" where
  "utf8_cont b = (128 \<le> (of_char b :: nat) \<and> (of_char b :: nat) \<le> 191)"

definition utf8_need :: "char \<Rightarrow> nat" where
  "utf8_need b0 =
     (let n = (of_char b0 :: nat) in
      if 194 \<le> n \<and> n \<le> 223 then 1
      else if 224 \<le> n \<and> n \<le> 239 then 2
      else if 240 \<le> n \<and> n \<le> 244 then 3
      else 0)"

definition utf8_second_ok :: "char \<Rightarrow> char \<Rightarrow> bool" where
  "utf8_second_ok b0 b1 =
     (let n = (of_char b0 :: nat); m = (of_char b1 :: nat) in
      if n = 224 then 160 \<le> m \<and> m \<le> 191
      else if n = 237 then 128 \<le> m \<and> m \<le> 159
      else if n = 240 then 144 \<le> m \<and> m \<le> 191
      else if n = 244 then 128 \<le> m \<and> m \<le> 143
      else utf8_cont b1)"

text \<open>How many of the \<open>k\<close> continuation bytes that the lead byte \<open>b0\<close> needs are there.\<close>

definition utf8_conts :: "char \<Rightarrow> nat \<Rightarrow> string \<Rightarrow> nat" where
  "utf8_conts b0 k r =
     (case r of
        [] \<Rightarrow> 0
      | b1 # r' \<Rightarrow>
          if utf8_second_ok b0 b1 then Suc (length (takeWhile utf8_cont (take (k - 1) r')))
          else 0)"

definition replacement_char :: string where
  "replacement_char = [char_of (239::nat), char_of (191::nat), char_of (189::nat)]"

function utf8_replace :: "string \<Rightarrow> string" where
  "utf8_replace [] = []"
| "utf8_replace (b0 # r) =
     (if (of_char b0 :: nat) < 128 then b0 # utf8_replace r
      else if utf8_need b0 = 0 then replacement_char @ utf8_replace r
      else if utf8_conts b0 (utf8_need b0) r = utf8_need b0
           then b0 # take (utf8_need b0) r @ utf8_replace (drop (utf8_need b0) r)
           else replacement_char @ utf8_replace (drop (utf8_conts b0 (utf8_need b0) r) r))"
  by pat_completeness auto
termination
  by (relation "measure length") auto

definition unquote :: "string \<Rightarrow> string" where
  "unquote s = (if CHR ''%'' \<notin> set s then s else utf8_replace (unquote_to_bytes s))"

definition unquote_plus :: "string \<Rightarrow> string" where
  "unquote_plus s = unquote (replace_char CHR ''+'' CHR '' '' s)"

definition always_safe :: "char \<Rightarrow> bool" where
  "always_safe c = (ascii_alpha c \<or> ascii_digit c \<or> c \<in> set ''_.-~'')"

definition hexchar :: "nat \<Rightarrow> char" where
  "hexchar n = ''0123456789ABCDEF'' ! n"

definition quote_byte :: "string \<Rightarrow> char \<Rightarrow> string" where
  "quote_byte safe c =
     (if always_safe c \<or> c \<in> set safe then [c]
      else [CHR ''%'', hexchar (of_char c div 16), hexchar (of_char c mod 16)])"

definition quote :: "string \<Rightarrow> string \<Rightarrow> string" where
  "quote s safe = concat (map (quote_byte safe) s)"

definition quote_plus :: "string \<Rightarrow> string" where
  "quote_plus s =
     (if CHR '' '' \<notin> set s then quote s []
      else replace_char CHR '' '' CHR ''+'' (quote s '' ''))"

subsection \<open>Query strings\<close>

definition parse_qsl :: "string \<Rightarrow> (string \<times> string) list" where
  "parse_qsl qs =
     (if qs = [] then []
      else map (\<lambda>name_value. (unquote_plus (before_char CHR ''='' name_value),
                               unquote_plus (after_char CHR ''='' name_value)))
             (filter (\<lambda>name_value. name_value \<noteq> [] \<and> after_char CHR ''='' name_value \<noteq> [])
                (split_char CHR ''&'' qs)))"

definition urlencode :: "(string \<times> string) list \<Rightarrow> string" where
  "urlencode qry = join ''&'' (map (\<lambda>(k, v). quote_plus k @ ''='' @ quote_plus v) qry)"

subsection \<open>Putting a URL together\<close>

definition urlunsplit :: "string \<Rightarrow> string \<Rightarrow> string \<Rightarrow> string \<Rightarrow> string \<Rightarrow> string" where
  "urlunsplit sch nl url qry frag =
     (let url1 = (if nl \<noteq> [] \<or> (sch \<noteq> [] \<and> sch \<in> set uses_netloc) \<or> take 2 url = ''//''
                  then ''//'' @ nl @ (if url \<noteq> [] \<and> take 1 url \<noteq> ''/'' then ''/'' @ url else url)
                  else url);
          url2 = (if sch \<noteq> [] then sch @ '':'' @ url1 else url1);
          url3 = (if qry \<noteq> [] then url2 @ ''?'' @ qry else url2)
      in if frag \<noteq> [] then url3 @ ''#'' @ frag else url3)"

definition urlunparse :: "parse_result \<Rightarrow> string" where
  "urlunparse c =
     urlunsplit (scheme c) (netloc c)
       (if params c \<noteq> [] then path c @ '';'' @ params c else path c)
       (query c) (fragment c)"

subsection \<open>urljoin\<close>

text \<open>\<open>segments[1:-1] = filter(None, segments[1:-1])\<close>: the empty segments between the
  first and the last one are dropped.\<close>

definition drop_inner_empty :: "string list \<Rightarrow> string list" where
  "drop_inner_empty segments =
     (case segments of
        [] \<Rightarrow> []
      | [a] \<Rightarrow> [a]
      | a # rest \<Rightarrow> a # filter (\<lambda>s. s \<noteq> []) (butlast rest) @ [last rest])"

text \<open>The loop over the segments: \<open>..\<close> pops the last resolved segment if there is one,
  \<open>.\<close> is skipped.\<close>

fun resolve_segments :: "string list \<Rightarrow> string list \<Rightarrow> string list" where
  "resolve_segments resolved_path [] = resolved_path"
| "resolve_segments resolved_path (seg # segs) =
     (if seg = ''..'' then resolve_segments (butlast resolved_path) segs
      else if seg = ''.'' then resolve_segments resolved_path segs
      else resolve_segments (resolved_path @ [seg]) segs)"

definition urljoin :: "pylib \<Rightarrow> string \<Rightarrow> string \<Rightarrow> error + string" where
  "urljoin lib base url =
     (if base = [] then Inr url
      else if url = [] then Inr base
      else
        case urlparse_scheme lib base [] of
          Inl e \<Rightarrow> Inl e
        | Inr b \<Rightarrow>
            (case urlparse_scheme lib url (scheme b) of
               Inl e \<Rightarrow> Inl e
             | Inr u \<Rightarrow>
                 if scheme u \<noteq> scheme b \<or> scheme u \<notin> set uses_relative then Inr url
                 else if scheme u \<in> set uses_netloc \<and> netloc u \<noteq> [] then Inr (urlunparse u)
                 else
                   let nl = (if scheme u \<in> set uses_netloc then netloc b else netloc u) in
                   if path u = [] \<and> params u = [] then
                     Inr (urlunparse (u\<lparr>netloc := nl, path := path b, params := params b,
                            query := (if query u = [] then query b else query u)\<rparr>))
                   else
                     let base_parts = (let bp = split_char CHR ''/'' (path b)
                                       in if last bp \<noteq> [] then butlast bp else bp);
                         segments = (if take 1 (path u) = ''/'' then split_char CHR ''/'' (path u)
                                     else drop_inner_empty (base_parts @ split_char CHR ''/'' (path u)));
                         resolved0 = resolve_segments [] segments;
                         resolved_path = (if last segments \<in> {''.'', ''..''} then resolved0 @ [[]]
                                          else resolved0);
                         joined = join ''/'' resolved_path
                     in Inr (urlunparse (u\<lparr>netloc := nl,
                               path := (if joined = [] then ''/'' else joined)\<rparr>))))"

section \<open>scraper/utils.py\<close>

text \<open>\<open>normalize_url(url, base_url)\<close>; \<open>base_url\<close> is \<open>None\<close> when the caller gives none.\<close>

definition ignore_params :: "string set" where
  "ignore_params = {''utm_source'', ''utm_medium'', ''utm_campaign''}"

definition normalize_url :: "pylib \<Rightarrow> string \<Rightarrow> string option \<Rightarrow> error + string" where
  "normalize_url lib url base_url =
     (case urlparse lib url of
        Inl e \<Rightarrow> Inl e
      | Inr parsed0 \<Rightarrow>
          (case (case base_url of
                   Some b \<Rightarrow> if netloc parsed0 = [] \<and> b \<noteq> [] then urljoin lib b url else Inr url
                 | None \<Rightarrow> Inr url) of
             Inl e \<Rightarrow> Inl e
           | Inr url1 \<Rightarrow>
               (case urlparse lib (py_lower lib url1) of
                  Inl e \<Rightarrow> Inl e
                | Inr parsed_url \<Rightarrow>
                    let sch = (if scheme parsed_url = ''https'' then ''http'' else scheme parsed_url);
                        pth = rstrip_char CHR ''/'' (path parsed_url);
                        query_params = parse_qsl (query parsed_url);
                        filtered_params = filter (\<lambda>(k, v). k \<notin> ignore_params) query_params;
                        sorted_query = urlencode (sort filtered_params)
                    in Inr (urlunparse \<lparr>scheme = sch, netloc = netloc parsed_url, path = pth,
                              params = [], query = sorted_query, fragment = []\<rparr>))))"

definition is_college_url :: "pylib \<Rightarrow> string \<Rightarrow> bool" where
  "is_college_url lib url =
     (case urlparse lib url of
        Inr parsed_url \<Rightarrow> sublist ''nitj.ac.in'' (netloc parsed_url)
      | Inl e \<Rightarrow> False)"

definition is_google_drive_url :: "string \<Rightarrow> bool" where
  "is_google_drive_url url = sublist ''drive.google.com'' url"

text \<open>\<open>url.split("file/d/")[1].split("/")[0]\<close> when \<open>file/d/\<close> occurs in the URL, else
  \<open>None\<close>.\<close>

definition extract_google_drive_file_id :: "string \<Rightarrow> string option" where
  "extract_google_drive_file_id url =
     (case partition_str ''file/d/'' url of
        None \<Rightarrow> None
      | Some (before, rest) \<Rightarrow>
          Some (before_char CHR ''/''
                  (case partition_str ''file/d/'' rest of
                     None \<Rightarrow> rest
                   | Some (second, after) \<Rightarrow> second)))"

definition google_drive_download_url :: "string \<Rightarrow> string" where
  "google_drive_download_url file_id = ''https://drive.google.com/uc?id='' @ file_id"

definition is_pdf_url :: "pylib \<Rightarrow> string \<Rightarrow> bool" where
  "is_pdf_url lib url = suffix ''.pdf'' (py_lower lib url)"

text \<open>The decimal digits of a number, for the f-string \<open>default_name_{counter}\<close>.\<close>

function show_nat :: "nat \<Rightarrow> string" where
  "show_nat n =
     (if n < 10 then [''0123456789'' ! n]
      else show_nat (n div 10) @ [''0123456789'' ! (n mod 10)])"
  by pat_completeness auto
termination
  by (relation "measure id") auto

declare show_nat.simps [simp del]

text \<open>
  \<open>URLNameGenerator.get_name_from_url\<close>. The generator's counter of names given to empty
  paths is passed in and returned. \<open>path.rsplit('.', 1)[0]\<close> is the path up to its last dot.
\<close>

definition get_name_from_url :: "pylib \<Rightarrow> nat \<Rightarrow> string \<Rightarrow> error + (string \<times> nat)" where
  "get_name_from_url lib empty_path_counter url =
     (case urlparse lib url of
        Inl e \<Rightarrow> Inl e
      | Inr parsed \<Rightarrow>
          if path parsed = [] \<or> path parsed = ''/''
          then Inr (''default_name_'' @ show_nat empty_path_counter, empty_path_counter + 1)
          else
            let pth = (if prefix ''/'' (path parsed) then drop 1 (path parsed) else path parsed)
            in Inr ((if CHR ''.'' \<in> set pth then rev (after_char CHR ''.'' (rev pth)) else pth),
                    empty_path_counter))"

section \<open>The crawler state and the outside world\<close>

text \<open>
  Every request the crawler itself sends is recorded, in order: the GET of
  \<open>fetch_and_hash_content\<close>, the GET of \<open>download_file\<close>, the HEAD of \<open>can_fetch_content\<close>
  and the page load of the browser in \<open>__fetch_content\<close>.
\<close>

datatype event = HashGet string | Download string | HeadProbe string | PageGet string

record anchor =
  href :: string
  description :: string

text \<open>What the text, image and video extractors return for a page.\<close>

record page_data =
  text_data :: string
  images_data :: "string list"
  video_data :: "string list"

text \<open>
  Loading a page in the browser and running the text, image and video extractors on it
  either raises (the browser is then at some URL), or yields the URL the browser is at, the
  extractors' data and the anchors of the page that have an \<open>href\<close>, in document order with
  their stripped text.
\<close>

datatype page_result = PageRaises string | Loaded string page_data "anchor list"

text \<open>
  The world answers the requests. An answer may depend on the number of requests sent so
  far, so the same URL may be answered differently at different times.
  \<open>hash_response\<close> is the value of \<open>fetch_and_hash_content\<close>: the digest of the body when the
  status is 200, and \<open>None\<close> for another status or a failed request.
  \<open>download_ok\<close> tells whether \<open>download_file\<close> could fetch the URL and write the file.
  \<open>head_request\<close> is what \<open>requests.head\<close> does. \<open>timestamp\<close> is the formatted current time;
  \<open>download_folder\<close> is the environment's \<open>DOWNLOAD_FOLDER\<close>, or \<open>fetched_downloadables\<close>.
  \<open>stdlib\<close> is the Python library the crawler runs on.
\<close>

text \<open>\<open>requests.head(url)\<close> returns a response with a status code, raises a
  \<open>requests.RequestException\<close>, or raises another exception.\<close>

datatype head_result = Status nat | RequestException | OtherException

record world =
  stdlib :: pylib
  hash_response :: "nat \<Rightarrow> string \<Rightarrow> string option"
  download_ok :: "nat \<Rightarrow> string \<Rightarrow> string \<Rightarrow> bool"
  head_request :: "nat \<Rightarrow> string \<Rightarrow> head_result"
  page_load :: "nat \<Rightarrow> string \<Rightarrow> page_result"
  timestamp :: "nat \<Rightarrow> string"
  download_folder :: string

record downloadable_info =
  info_url :: string
  info_filename :: string
  info_format :: string
  info_description :: string
  info_source_url :: string
  info_timestamp :: string
  info_folder :: string

type_synonym links_data = "(string \<times> downloadable_info list) list"

text \<open>A record of \<open>extracted_data\<close>: that of a downloaded PDF (\<open>pdf_path\<close>, \<open>url\<close>,
  \<open>source_page\<close>) or the content dictionary of a page (\<open>text\<close>, \<open>images\<close>, \<open>downloadables\<close>,
  \<open>video_data\<close>).\<close>

datatype content =
    PdfRecord string string string
  | PageContent string "string list" links_data "string list"

text \<open>What is pickled into the storage file: a dictionary from field names to values.\<close>

datatype pyval =
    SeenLinks "(string \<times> string option) list"
  | UrlSet "string set"
  | ExtractedData "(string \<times> content) list"
  | Downloadables "(string \<times> (string \<times> string) list) list"

text \<open>
  The fields of \<open>ContentFetcher\<close>, with the counter of its \<open>URLNameGenerator\<close>, the URL the
  browser is at, the content of the storage file (\<open>None\<close> when there is no file) and the
  requests sent so far. A Python dictionary is an association list in insertion order:
  \<open>d[k] = v\<close> is \<open>AList.update k v d\<close>, \<open>k in d\<close> is \<open>k \<in> set (map fst d)\<close> and
  \<open>d.values()\<close> is \<open>map snd d\<close>. A fingerprint is a \<open>string option\<close>, \<open>None\<close> as in Python.
\<close>

record crawler =
  relevant_links :: "(string \<times> string) list"
  seen_links :: "(string \<times> string option) list"
  non_college_urls :: "string set"
  urls_not_fetched :: "string set"
  error_urls :: "string set"
  extracted_data :: "(string \<times> content) list"
  google_drive_urls :: "string set"
  downloadables :: "(string \<times> (string \<times> string) list) list"
  empty_path_counter :: nat
  current_url :: string
  storage :: "(string \<times> pyval) list option"
  effects :: "event list"

text \<open>\<open>d.get(k, default)\<close>.\<close>

definition dict_get :: "('k \<times> 'v) list \<Rightarrow> 'k \<Rightarrow> 'v \<Rightarrow> 'v" where
  "dict_get d k dflt = (case map_of d k of Some v \<Rightarrow> v | None \<Rightarrow> dflt)"

text \<open>A Python value is true in a condition unless it is \<open>None\<close> or empty.\<close>

definition truthy :: "string option \<Rightarrow> bool" where
  "truthy v = (case v of None \<Rightarrow> False | Some s \<Rightarrow> s \<noteq> [])"

subsection \<open>Requests\<close>

text \<open>The functions of \<open>scraper/utils.py\<close> that send a request. \<open>fetch_and_hash_content\<close> and
  \<open>download_file\<close> catch every exception and return \<open>None\<close>.\<close>

definition fetch_and_hash_content :: "world \<Rightarrow> string \<Rightarrow> crawler \<Rightarrow> string option \<times> crawler" where
  "fetch_and_hash_content w url st =
     (hash_response w (length (effects st)) url, st\<lparr>effects := effects st @ [HashGet url]\<rparr>)"

text \<open>\<open>os.path.join\<close> of two parts.\<close>

definition path_join :: "string \<Rightarrow> string \<Rightarrow> string" where
  "path_join a b =
     (if prefix ''/'' b then b
      else if a = [] \<or> suffix ''/'' a then a @ b
      else a @ ''/'' @ b)"

definition download_file :: "world \<Rightarrow> string \<Rightarrow> string \<Rightarrow> string \<Rightarrow> crawler \<Rightarrow> string option \<times> crawler" where
  "download_file w download_url local_folder filename st =
     (let file_path = path_join local_folder filename
      in ((if download_ok w (length (effects st)) download_url file_path then Some file_path
           else None),
          st\<lparr>effects := effects st @ [Download download_url]\<rparr>))"

text \<open>\<open>can_fetch_content\<close> catches \<open>requests.RequestException\<close> only: another exception of the
  request leaves the function.\<close>

definition can_fetch_content :: "world \<Rightarrow> string \<Rightarrow> crawler \<Rightarrow> (error + bool) \<times> crawler" where
  "can_fetch_content w url st =
     ((case head_request w (length (effects st)) url of
         Status status_code \<Rightarrow> Inr (status_code = 200)
       | RequestException \<Rightarrow> Inr False
       | OtherException \<Rightarrow> Inl HeadError),
      st\<lparr>effects := effects st @ [HeadProbe url]\<rparr>)"

section \<open>scraper/href\_parser.py\<close>

text \<open>
  The state of one call of \<open>process_href_links\<close>: the fetcher's state (its \<open>seen_links\<close>,
  \<open>relevant_links\<close> and \<open>downloadables\<close> are the dictionaries passed in), the local
  \<open>downloadables_data\<close> and the counter of the \<open>LinkProcessor\<close>'s own name generator.
  A function that may raise returns \<open>Some\<close> exception, with the state as it is then.
\<close>

record link_state =
  fetcher :: crawler
  downloadables_data :: links_data
  name_counter :: nat

definition media_extensions :: "string list" where
  "media_extensions = [''.png'', ''.jpg'', ''.jpeg'', ''.gif'', ''.svg'', ''.mp4'', ''.avi'',
     ''.mkv'', ''.mov'', ''.wmv'', ''.flv'', ''.webm'']"

definition document_extensions :: "string list" where
  "document_extensions = [''.pdf'', ''.docx'', ''.xlsx'', ''.zip'']"

definition handle_downloadable :: "world \<Rightarrow> string \<Rightarrow> string \<Rightarrow> link_state \<Rightarrow> error option \<times> link_state" where
  "handle_downloadable w full_url a_text ls =
     (case get_name_from_url (stdlib w) (name_counter ls) full_url of
        Inl e \<Rightarrow> (Some e, ls)
      | Inr (name, counter) \<Rightarrow>
          let file_name = replace_char CHR ''/'' CHR ''_'' name;
              ls1 = ls\<lparr>name_counter := counter\<rparr>;
              st = fetcher ls1
          in if file_name \<notin> set (map fst (dict_get (downloadables st) ''pdf'' []))
              \<and> file_name \<notin> set (map fst (dict_get (downloadables st) ''docx'' []))
              \<and> file_name \<notin> set (map fst (dict_get (downloadables st) ''xlsx'' []))
              \<and> file_name \<notin> set (map fst (dict_get (downloadables st) ''zip'' []))
             then
               let file_ext = last (split_char CHR ''.'' full_url);
                   (file_path, st1) = download_file w full_url (download_folder w) file_name st
               in (case file_path of
                     None \<Rightarrow> (None, ls1\<lparr>fetcher := st1\<rparr>)
                   | Some fp \<Rightarrow>
                       if fp \<noteq> [] \<and> file_ext \<in> set (map fst (downloadables_data ls1)) then
                         let downloadable_info =
                               \<lparr>info_url = full_url, info_filename = file_name,
                                info_format = file_ext, info_description = a_text,
                                info_source_url = current_url st1,
                                info_timestamp = timestamp w (length (effects st1)),
                                info_folder = download_folder w\<rparr>;
                             ls2 = ls1\<lparr>fetcher := st1,
                                     downloadables_data :=
                                       AList.update file_ext
                                         (dict_get (downloadables_data ls1) file_ext []
                                            @ [downloadable_info])
                                         (downloadables_data ls1)\<rparr>
                         in (case map_of (downloadables st1) file_ext of
                               None \<Rightarrow> (Some AttributeError, ls2)
                             | Some entries \<Rightarrow>
                                 (None, ls2\<lparr>fetcher := st1\<lparr>downloadables :=
                                    AList.update file_ext (entries @ [(file_name, full_url)])
                                      (downloadables st1)\<rparr>\<rparr>))
                       else (None, ls1\<lparr>fetcher := st1\<rparr>))
             else (None, ls1))"

text \<open>The body of the loop of \<open>process_href_links\<close> for one anchor.\<close>

definition process_href :: "world \<Rightarrow> anchor \<Rightarrow> link_state \<Rightarrow> error option \<times> link_state" where
  "process_href w a_tag ls =
     (let st = fetcher ls in
      case urljoin (stdlib w) (current_url st) (href a_tag) of
        Inl e \<Rightarrow> (Some e, ls)
      | Inr full_url \<Rightarrow>
          (case normalize_url (stdlib w) full_url None of
             Inl e \<Rightarrow> (Some e, ls)
           | Inr normalized_url \<Rightarrow>
               if list_ex (\<lambda>ext. suffix ext (href a_tag)) media_extensions then (None, ls)
               else if list_ex (\<lambda>ext. suffix ext (href a_tag)) document_extensions
               then handle_downloadable w full_url (description a_tag) ls
               else if normalized_url = [] \<or> normalized_url \<in> set (map fst (seen_links st))
               then (None, ls)
               else
                 let (content_hash, st1) = fetch_and_hash_content w full_url st
                 in if truthy content_hash \<and> content_hash \<notin> set (map snd (seen_links st1))
                    then (None, ls\<lparr>fetcher := st1
                            \<lparr>seen_links := AList.update normalized_url content_hash (seen_links st1),
                             relevant_links := AList.update normalized_url full_url (relevant_links st1)\<rparr>\<rparr>)
                    else (None, ls\<lparr>fetcher := st1\<rparr>)))"

fun process_hrefs :: "world \<Rightarrow> anchor list \<Rightarrow> link_state \<Rightarrow> error option \<times> link_state" where
  "process_hrefs w [] ls = (None, ls)"
| "process_hrefs w (a_tag # rest) ls =
     (case process_href w a_tag ls of
        (Some e, ls1) \<Rightarrow> (Some e, ls1)
      | (None, ls1) \<Rightarrow> process_hrefs w rest ls1)"

definition process_href_links :: "world \<Rightarrow> anchor list \<Rightarrow> crawler \<Rightarrow> (error + links_data) \<times> crawler" where
  "process_href_links w all_links st =
     (case process_hrefs w all_links
             \<lparr>fetcher = st,
              downloadables_data = [(''pdf'', []), (''docx'', []), (''xlsx'', []), (''zip'', [])],
              name_counter = 1\<rparr> of
        (Some e, ls) \<Rightarrow> (Inl e, fetcher ls)
      | (None, ls) \<Rightarrow> (Inr (downloadables_data ls), fetcher ls))"

section \<open>scraper/controller.py\<close>

definition empty_downloadables :: "(string \<times> (string \<times> string) list) list" where
  "empty_downloadables = [(''pdf'', []), (''docx'', []), (''xlsx'', []), (''zip'', [])]"

text \<open>The projections of a pickled value. A file written by \<open>save_data\<close> holds a value of
  the right shape under every key.\<close>

fun as_seen_links :: "pyval \<Rightarrow> (string \<times> string option) list" where
  "as_seen_links (SeenLinks d) = d"
| "as_seen_links v = []"

fun as_url_set :: "pyval \<Rightarrow> string set" where
  "as_url_set (UrlSet s) = s"
| "as_url_set v = {}"

fun as_extracted_data :: "pyval \<Rightarrow> (string \<times> content) list" where
  "as_extracted_data (ExtractedData d) = d"
| "as_extracted_data v = []"

fun as_downloadables :: "pyval \<Rightarrow> (string \<times> (string \<times> string) list) list" where
  "as_downloadables (Downloadables d) = d"
| "as_downloadables v = []"

definition load_data :: "(string \<times> pyval) list \<Rightarrow> crawler \<Rightarrow> crawler" where
  "load_data data st =
     st\<lparr>seen_links := as_seen_links (dict_get data ''seen_links'' (SeenLinks [])),
        non_college_urls := as_url_set (dict_get data ''non_college_urls'' (UrlSet {})),
        urls_not_fetched := as_url_set (dict_get data ''urls_not_fetched'' (UrlSet {})),
        error_urls := as_url_set (dict_get data ''error_urls'' (UrlSet {})),
        extracted_data := as_extracted_data (dict_get data ''extracted_data'' (ExtractedData [])),
        google_drive_urls := as_url_set (dict_get data ''google_drive_urls'' (UrlSet {})),
        downloadables :=
          as_downloadables (dict_get data ''downloadables'' (Downloadables empty_downloadables))\<rparr>"

definition save_data :: "crawler \<Rightarrow> crawler" where
  "save_data st =
     st\<lparr>storage := Some
        [(''seen_links'', SeenLinks (seen_links st)),
         (''non_college_urls'', UrlSet (non_college_urls st)),
         (''urls_not_fetched'', UrlSet (urls_not_fetched st)),
         (''error_urls'', UrlSet (error_urls st)),
         (''extracted_data'', ExtractedData (extracted_data st)),
         (''google_drive_urls'', UrlSet (google_drive_urls st)),
         (''downloadables'', Downloadables (downloadables st))]\<rparr>"

text \<open>\<open>ContentFetcher.__init__\<close> with a browser at \<open>start_url\<close> and the storage file as
  given: the data is loaded when the file exists.\<close>

definition init_fetcher :: "string \<Rightarrow> (string \<times> pyval) list option \<Rightarrow> crawler" where
  "init_fetcher start_url file =
     (let st = \<lparr>relevant_links = [], seen_links = [], non_college_urls = {},
                urls_not_fetched = {}, error_urls = {}, extracted_data = [],
                google_drive_urls = {}, downloadables = empty_downloadables,
                empty_path_counter = 1, current_url = start_url, storage = file,
                effects = []\<rparr>
      in case file of None \<Rightarrow> st | Some data \<Rightarrow> load_data data st)"

definition fetch_content :: "world \<Rightarrow> string \<Rightarrow> crawler \<Rightarrow> (error + content) \<times> crawler" where
  "fetch_content w url st =
     (let st1 = st\<lparr>effects := effects st @ [PageGet url]\<rparr> in
      case page_load w (length (effects st)) url of
        PageRaises cur \<Rightarrow> (Inl PageError, st1\<lparr>current_url := cur\<rparr>)
      | Loaded cur pd all_links \<Rightarrow>
          (case process_href_links w all_links (st1\<lparr>current_url := cur\<rparr>) of
             (Inl e, st2) \<Rightarrow> (Inl e, st2)
           | (Inr links_data, st2) \<Rightarrow>
               (Inr (PageContent (text_data pd) (images_data pd) links_data (video_data pd)),
                st2)))"

text \<open>A downloaded file is recorded: its record in \<open>extracted_data\<close>, then its name in the
  \<open>pdf\<close> list of \<open>downloadables\<close>.\<close>

definition store_pdf :: "string \<Rightarrow> string \<Rightarrow> string \<Rightarrow> string \<Rightarrow> crawler \<Rightarrow> error option \<times> crawler" where
  "store_pdf normalized_url downloaded_pdf_path url filename st =
     (let st1 = st\<lparr>extracted_data :=
                  AList.update normalized_url
                    (PdfRecord downloaded_pdf_path url (current_url st)) (extracted_data st)\<rparr>
      in case map_of (downloadables st1) ''pdf'' of
           None \<Rightarrow> (Some AttributeError, st1)
         | Some entries \<Rightarrow>
             (None, st1\<lparr>downloadables :=
                AList.update ''pdf'' (entries @ [(filename, url)]) (downloadables st1)\<rparr>))"

text \<open>The body of the loop over the snapshot in \<open>process_url\<close>, for one URL.\<close>

definition process_entry :: "world \<Rightarrow> string \<Rightarrow> crawler \<Rightarrow> error option \<times> crawler" where
  "process_entry w url st =
     (case normalize_url (stdlib w) url None of
        Inl e \<Rightarrow> (Some e, st)
      | Inr normalized_url \<Rightarrow>
          if is_college_url (stdlib w) url then
            if is_pdf_url (stdlib w) url then
              (case get_name_from_url (stdlib w) (empty_path_counter st) url of
                 Inl e \<Rightarrow> (Some e, st)
               | Inr (name, counter) \<Rightarrow>
                   let filename = replace_char CHR ''/'' CHR ''_'' name;
                       st0 = st\<lparr>empty_path_counter := counter\<rparr>
                   in if filename \<notin> set (map fst (dict_get (downloadables st0) ''pdf'' []))
                      then
                        let (downloaded_pdf_path, st1) =
                              download_file w url ''fetched_downloadables'' filename st0
                        in (case downloaded_pdf_path of
                              None \<Rightarrow> (None, st1)
                            | Some pdf_path \<Rightarrow>
                                if pdf_path \<noteq> []
                                then store_pdf normalized_url pdf_path url filename st1
                                else (None, st1))
                      else (None, st0))
            else if is_google_drive_url url then
              (case extract_google_drive_file_id url of
                 None \<Rightarrow> (None, st)
               | Some file_id \<Rightarrow>
                   if file_id = [] then (None, st)
                   else
                     let download_url = google_drive_download_url file_id;
                         filename = replace_char CHR ''/'' CHR ''_'' file_id
                     in if filename \<notin> set (map fst (dict_get (downloadables st) ''pdf'' []))
                        then
                          let (downloaded_pdf_path, st1) =
                                download_file w download_url ''fetched_downloadables'' filename st
                          in (case downloaded_pdf_path of
                                None \<Rightarrow> (None, st1)
                              | Some pdf_path \<Rightarrow>
                                  if pdf_path \<noteq> []
                                  then
                                    (case store_pdf normalized_url pdf_path url filename st1 of
                                       (Some e, st2) \<Rightarrow> (Some e, st2)
                                     | (None, st2) \<Rightarrow>
                                         (None, st2\<lparr>google_drive_urls :=
                                                      insert url (google_drive_urls st2)\<rparr>))
                                  else (None, st1))
                        else (None, st))
            else
              (case can_fetch_content w url st of
                 (Inl e, st1) \<Rightarrow> (Some e, st1)
               | (Inr can_fetch, st1) \<Rightarrow>
                   if can_fetch then
                     (case fetch_content w url st1 of
                        (Inr content, st2) \<Rightarrow>
                          (None, st2\<lparr>extracted_data :=
                                      AList.update normalized_url content (extracted_data st2)\<rparr>)
                      | (Inl e, st2) \<Rightarrow> (None, st2\<lparr>error_urls := insert url (error_urls st2)\<rparr>))
                   else (None, st1\<lparr>urls_not_fetched := insert url (urls_not_fetched st1)\<rparr>))
          else (None, st\<lparr>non_college_urls := insert url (non_college_urls st)\<rparr>))"

text \<open>The \<open>for\<close> loop over the items of the snapshot.\<close>

fun process_snapshot :: "world \<Rightarrow> (string \<times> string) list \<Rightarrow> crawler \<Rightarrow> error option \<times> crawler" where
  "process_snapshot w [] st = (None, st)"
| "process_snapshot w ((key, url) # rest) st =
     (case process_entry w url st of
        (Some e, st1) \<Rightarrow> (Some e, st1)
      | (None, st1) \<Rightarrow> process_snapshot w rest st1)"

text \<open>One turn of the \<open>while\<close> loop: the snapshot is copied, the frontier is cleared, the
  snapshot is processed.\<close>

definition process_wave :: "world \<Rightarrow> crawler \<Rightarrow> error option \<times> crawler" where
  "process_wave w st =
     (let current_links_snapshot = relevant_links st
      in process_snapshot w current_links_snapshot (st\<lparr>relevant_links := []\<rparr>))"

text \<open>The \<open>while relevant_links\<close> loop. It need not end, as a site may go on giving new
  links; the first argument bounds the number of waves, and the value is \<open>None\<close> when the
  frontier is not empty after that many waves.\<close>

fun run_waves :: "nat \<Rightarrow> world \<Rightarrow> crawler \<Rightarrow> (error option \<times> crawler) option" where
  "run_waves 0 w st = (if relevant_links st = [] then Some (None, st) else None)"
| "run_waves (Suc n) w st =
     (if relevant_links st = [] then Some (None, st)
      else (case process_wave w st of
              (Some e, st1) \<Rightarrow> Some (Some e, st1)
            | (None, st1) \<Rightarrow> run_waves n w st1))"

text \<open>
  The first lines of \<open>process_url\<close>, up to the loop: the seed is normalized and checked
  against \<open>seen_links\<close>; \<open>Inr False\<close> is the early return for a processed URL, \<open>Inr True\<close>
  says that the seed has been recorded and put into the frontier. The condition
  \<open>normalized_url in seen_links or fetch_and_hash_content(url) in seen_links.values()\<close>
  sends the first request only when the URL is not a key, and the assignment
  \<open>seen_links[normalized_url] = fetch_and_hash_content(url)\<close> sends a second one.
\<close>

definition seed_frontier :: "world \<Rightarrow> string \<Rightarrow> crawler \<Rightarrow> (error + bool) \<times> crawler" where
  "seed_frontier w url st =
     (case normalize_url (stdlib w) url None of
        Inl e \<Rightarrow> (Inl e, st)
      | Inr normalized_url \<Rightarrow>
          if normalized_url \<in> set (map fst (seen_links st)) then (Inr False, st)
          else
            let (first_hash, st1) = fetch_and_hash_content w url st
            in if first_hash \<in> set (map snd (seen_links st1)) then (Inr False, st1)
               else
                 let (second_hash, st2) = fetch_and_hash_content w url st1;
                     st3 = st2\<lparr>seen_links := AList.update normalized_url second_hash (seen_links st2)\<rparr>
                 in (Inr True,
                     st3\<lparr>relevant_links := AList.update normalized_url url (relevant_links st3)\<rparr>))"

text \<open>\<open>ContentFetcher.process_url\<close>, with a bound on the number of waves. An exception
  leaves the method before the data is saved, and so does the early return.\<close>

definition process_url :: "nat \<Rightarrow> world \<Rightarrow> string \<Rightarrow> crawler \<Rightarrow> (error option \<times> crawler) option" where
  "process_url n w url st =
     (case seed_frontier w url st of
        (Inl e, st1) \<Rightarrow> Some (Some e, st1)
      | (Inr False, st1) \<Rightarrow> Some (None, st1)
      | (Inr True, st1) \<Rightarrow>
          (case run_waves n w st1 of
             None \<Rightarrow> None
           | Some (Some e, st2) \<Rightarrow> Some (Some e, st2)
           | Some (None, st2) \<Rightarrow> Some (None, save_data st2)))"

section \<open>Example sites\<close>

text \<open>A library that accepts every bracketed host and every network location, and leaves
  text that is not ASCII as it is when lower-casing.\<close>

definition lenient_lib :: pylib where
  "lenient_lib = \<lparr>unicode_lower = (\<lambda>s. s), bracketed_host_ok = (\<lambda>h. True),
                   nfkc_netloc_ok = (\<lambda>n. True)\<rparr>"

text \<open>A world in which every download and every reachability probe succeeds, and the
  fingerprints and pages are as given.\<close>

definition simple_world :: "(nat \<Rightarrow> string \<Rightarrow> string option) \<Rightarrow> (string \<Rightarrow> page_result) \<Rightarrow> world" where
  "simple_world fingerprint pages =
     \<lparr>stdlib = lenient_lib, hash_response = fingerprint, download_ok = (\<lambda>t u f. True),
      head_request = (\<lambda>t u. Status 200), page_load = (\<lambda>t. pages),
      timestamp = (\<lambda>t. ''2024-01-01 00:00:00''),
      download_folder = ''fetched_downloadables''\<rparr>"

definition plain_page :: page_data where
  "plain_page = \<lparr>text_data = ''text'', images_data = [], video_data = []\<rparr>"

text \<open>A fetcher that starts without a storage file, with the browser on a blank page.\<close>

definition fresh_fetcher :: crawler where
  "fresh_fetcher = init_fetcher ''about:blank'' None"

text \<open>The home page links to a page of another host.\<close>

definition foreign_link_site :: world where
  "foreign_link_site =
     simple_world (\<lambda>t u. Some (''digest of '' @ u))
       (\<lambda>u. if u = ''http://nitj.ac.in/''
            then Loaded u plain_page
                   [\<lparr>href = ''http://example.com/x'', description = ''elsewhere''\<rparr>]
            else PageRaises u)"

text \<open>Every page load times out.\<close>

definition timeout_site :: world where
  "timeout_site = simple_world (\<lambda>t u. Some (''digest of '' @ u)) (\<lambda>u. PageRaises u)"

text \<open>The state of the fetcher after a crawl of the home page of \<open>timeout_site\<close>.\<close>

definition after_timeout_run :: crawler where
  "after_timeout_run = snd (the (process_url 2 timeout_site ''http://nitj.ac.in/'' fresh_fetcher))"

text \<open>The home page links to a page whose fingerprint request fails.\<close>

definition unfingerprinted_link_site :: world where
  "unfingerprinted_link_site =
     simple_world (\<lambda>t u. if u = ''http://nitj.ac.in/'' then Some ''digest of home'' else None)
       (\<lambda>u. if u = ''http://nitj.ac.in/''
            then Loaded u plain_page [\<lparr>href = ''/new'', description = ''new page''\<rparr>]
            else PageRaises u)"

text \<open>No fingerprint request succeeds and no page loads.\<close>

definition no_fingerprint_site :: world where
  "no_fingerprint_site = simple_world (\<lambda>t u. None) (\<lambda>u. PageRaises u)"

text \<open>The body of a page changes between two requests.\<close>

definition changing_site :: world where
  "changing_site =
     simple_world (\<lambda>t u. if t = 0 then Some ''digest one'' else Some ''digest two'')
       (\<lambda>u. PageRaises u)"

text \<open>The home page links to a document and to a later page; the later page links to the
  same document with a fragment.\<close>

definition document_site :: world where
  "document_site =
     simple_world (\<lambda>t u. Some (''digest of '' @ u))
       (\<lambda>u. if u = ''http://nitj.ac.in/''
            then Loaded u plain_page
                   [\<lparr>href = ''http://nitj.ac.in/doc.pdf'', description = ''the document''\<rparr>,
                    \<lparr>href = ''http://nitj.ac.in/later'', description = ''later''\<rparr>]
            else if u = ''http://nitj.ac.in/later''
            then Loaded u plain_page
                   [\<lparr>href = ''http://nitj.ac.in/doc.pdf#section2'', description = ''section 2''\<rparr>]
            else Loaded u plain_page [])"

text \<open>The state of the fetcher after a crawl of a page of \<open>no_fingerprint_site\<close>.\<close>

definition after_unfingerprinted_seed :: crawler where
  "after_unfingerprinted_seed =
     snd (the (process_url 2 no_fingerprint_site ''http://nitj.ac.in/a'' fresh_fetcher))"


text \<open>The state in which the links of the home page are processed, in a fresh fetcher.\<close>

definition home_links :: link_state where
  "home_links =
     \<lparr>fetcher = fresh_fetcher\<lparr>current_url := ''http://nitj.ac.in/''\<rparr>,
      downloadables_data = [(''pdf'', []), (''docx'', []), (''xlsx'', []), (''zip'', [])],
      name_counter = 1\<rparr>"

text \<open>The state of a fresh fetcher when the home page is in the frontier.\<close>

definition seeded_fetcher :: crawler where
  "seeded_fetcher = snd (seed_frontier foreign_link_site ''http://nitj.ac.in/'' fresh_fetcher)"


section \<open>Notions used in the properties\<close>

text \<open>Plain text: ASCII text without square brackets.\<close>

definition plain_char :: "char \<Rightarrow> bool" where
  "plain_char c \<longleftrightarrow> of_char c < (128::nat) \<and> c \<noteq> CHR ''['' \<and> c \<noteq> CHR '']''"

definition plain_url :: "string \<Rightarrow> bool" where
  "plain_url s = list_all plain_char s"

definition seen_keys :: "crawler \<Rightarrow> string set" where
  "seen_keys st = set (map fst (seen_links st))"

definition frontier_keys :: "crawler \<Rightarrow> string set" where
  "frontier_keys st = set (map fst (relevant_links st))"

text \<open>From \<open>st\<close> to \<open>st'\<close> the entries of \<open>seen_links\<close> are kept, and every key that has come
  into the frontier is a key that has come into \<open>seen_links\<close>.\<close>

definition discovers :: "crawler \<Rightarrow> crawler \<Rightarrow> bool" where
  "discovers st st' \<longleftrightarrow>
     map_of (seen_links st) \<subseteq>\<^sub>m map_of (seen_links st')
     \<and> frontier_keys st' \<subseteq> frontier_keys st \<union> (seen_keys st' - seen_keys st)"

text \<open>The URLs that a list of requests probes with HEAD or loads in the browser.\<close>

fun page_request :: "event \<Rightarrow> string list" where
  "page_request (HeadProbe u) = [u]"
| "page_request (PageGet u) = [u]"
| "page_request e = []"

definition page_requests :: "event list \<Rightarrow> string set" where
  "page_requests es = set (concat (map page_request es))"

text \<open>The requests sent from \<open>st\<close> to \<open>st'\<close>.\<close>

definition new_effects :: "crawler \<Rightarrow> crawler \<Rightarrow> event list" where
  "new_effects st st' = drop (length (effects st)) (effects st')"

text \<open>From \<open>st\<close> to \<open>st'\<close> requests have only been added, and the pages probed or loaded
  are among \<open>urls\<close>.\<close>

definition requests_within :: "string set \<Rightarrow> crawler \<Rightarrow> crawler \<Rightarrow> bool" where
  "requests_within urls st st' \<longleftrightarrow>
     prefix (effects st) (effects st') \<and> page_requests (new_effects st st') \<subseteq> urls"

section \<open>Properties of the URL functions\<close>

text \<open>The definitions that evaluate the URL functions on a given text.\<close>

lemmas url_defs = urlparse_def urlparse_scheme_def urlsplit_def split_scheme_def before_char_def
  after_char_def splitnetloc_def netloc_ok_def netloc_delim_def Let_def c0_control_or_space_def
  unsafe_url_byte_def ascii_alpha_def scheme_char_def ascii_digit_def ascii_lower_def lower_char_def
  py_lower_def isascii_def
  ascii_uppercase_def ascii_lowercase_def uses_params_def splitparams_def last_segment_def

lemmas qs_defs = parse_qsl_def urlencode_def unquote_plus_def unquote_def quote_plus_def quote_def
  quote_byte_def always_safe_def replace_char_def urlunparse_def urlunsplit_def uses_netloc_def
  rstrip_char_def ignore_params_def hexchar_def

subsection \<open>Lower case\<close>

lemma lower_char_upper: "c \<in> set ascii_uppercase \<Longrightarrow> lower_char c \<in> set ascii_lowercase"
  unfolding ascii_uppercase_def
  by (simp, elim disjE; simp add: lower_char_def ascii_uppercase_def ascii_lowercase_def)

lemma map_of_upper_None:
  "c \<notin> set ascii_uppercase \<Longrightarrow> map_of (zip ascii_uppercase ascii_lowercase) c = None"
  by (rule map_of_zip_is_None[THEN iffD2]) (simp_all add: ascii_uppercase_def ascii_lowercase_def)

lemma lower_char_other: "c \<notin> set ascii_uppercase \<Longrightarrow> lower_char c = c"
  by (simp add: lower_char_def map_of_upper_None)

lemma lower_not_upper: "d \<in> set ascii_lowercase \<Longrightarrow> d \<notin> set ascii_uppercase"
  by (auto simp: ascii_lowercase_def ascii_uppercase_def)

lemma lower_char_not_upper: "lower_char c \<notin> set ascii_uppercase"
  by (cases "c \<in> set ascii_uppercase") (auto simp: lower_char_other dest: lower_char_upper lower_not_upper)

lemma lower_char_idem [simp]: "lower_char (lower_char c) = lower_char c"
  by (rule lower_char_other) (rule lower_char_not_upper)

lemma ascii_lower_idem [simp]: "ascii_lower (ascii_lower s) = ascii_lower s"
  by (simp add: ascii_lower_def)

lemma lower_char_eq_iff:
  assumes "d \<notin> set ascii_uppercase" "d \<notin> set ascii_lowercase"
  shows "(lower_char c = d) = (c = d)"
proof (cases "c \<in> set ascii_uppercase")
  case True
  with assms lower_char_upper[OF True] show ?thesis by auto
next
  case False
  then show ?thesis by (simp add: lower_char_other)
qed

lemma lower_char_delims [simp]:
  "(lower_char c = CHR '':'') = (c = CHR '':'')"
  "(lower_char c = CHR ''/'') = (c = CHR ''/'')"
  "(lower_char c = CHR ''?'') = (c = CHR ''?'')"
  "(lower_char c = CHR ''#'') = (c = CHR ''#'')"
  "(lower_char c = CHR '';'') = (c = CHR '';'')"
  "(lower_char c = CHR ''['') = (c = CHR ''['')"
  "(lower_char c = CHR '']'') = (c = CHR '']'')"
  by (rule lower_char_eq_iff; simp add: ascii_uppercase_def ascii_lowercase_def)+

lemma pred_lower:
  assumes "\<And>d. d \<in> set ascii_uppercase \<Longrightarrow> P (lower_char d) = P d"
  shows "P (lower_char c) = P c"
  by (cases "c \<in> set ascii_uppercase") (simp_all add: assms lower_char_other)

lemma scheme_char_lower [simp]: "scheme_char (lower_char c) = scheme_char c"
proof (rule pred_lower)
  fix d assume "d \<in> set ascii_uppercase"
  then show "scheme_char (lower_char d) = scheme_char d"
    unfolding ascii_uppercase_def
    by (simp, elim disjE; simp add: lower_char_def ascii_uppercase_def ascii_lowercase_def scheme_char_def ascii_alpha_def ascii_digit_def)
qed

lemma ascii_alpha_lower [simp]: "ascii_alpha (lower_char c) = ascii_alpha c"
proof (rule pred_lower)
  fix d assume "d \<in> set ascii_uppercase"
  then show "ascii_alpha (lower_char d) = ascii_alpha d"
    unfolding ascii_uppercase_def
    by (simp, elim disjE; simp add: lower_char_def ascii_uppercase_def ascii_lowercase_def ascii_alpha_def)
qed

lemma c0_lower [simp]: "c0_control_or_space (lower_char c) = c0_control_or_space c"
proof (rule pred_lower)
  fix d assume "d \<in> set ascii_uppercase"
  then show "c0_control_or_space (lower_char d) = c0_control_or_space d"
    unfolding ascii_uppercase_def
    by (simp, elim disjE; simp add: lower_char_def ascii_uppercase_def ascii_lowercase_def c0_control_or_space_def)
qed

lemma unsafe_lower [simp]: "unsafe_url_byte (lower_char c) = unsafe_url_byte c"
proof (rule pred_lower)
  fix d assume "d \<in> set ascii_uppercase"
  then show "unsafe_url_byte (lower_char d) = unsafe_url_byte d"
    unfolding ascii_uppercase_def
    by (simp, elim disjE; simp add: lower_char_def ascii_uppercase_def ascii_lowercase_def unsafe_url_byte_def)
qed

lemma netloc_delim_lower [simp]: "netloc_delim (lower_char c) = netloc_delim c"
  by (simp add: netloc_delim_def)


subsection \<open>Parsing commutes with lower-casing\<close>

lemma comp_lower [simp]:
  "(c0_control_or_space \<circ> lower_char) = c0_control_or_space"
  "((\<lambda>c. \<not> unsafe_url_byte c) \<circ> lower_char) = (\<lambda>c. \<not> unsafe_url_byte c)"
  "((\<lambda>c. \<not> netloc_delim c) \<circ> lower_char) = (\<lambda>c. \<not> netloc_delim c)"
  "((\<lambda>c. c \<noteq> CHR '':'') \<circ> lower_char) = (\<lambda>c. c \<noteq> CHR '':'')"
  "((\<lambda>c. c \<noteq> CHR ''/'') \<circ> lower_char) = (\<lambda>c. c \<noteq> CHR ''/'')"
  "((\<lambda>c. c \<noteq> CHR ''?'') \<circ> lower_char) = (\<lambda>c. c \<noteq> CHR ''?'')"
  "((\<lambda>c. c \<noteq> CHR ''#'') \<circ> lower_char) = (\<lambda>c. c \<noteq> CHR ''#'')"
  "((\<lambda>c. c \<noteq> CHR '';'') \<circ> lower_char) = (\<lambda>c. c \<noteq> CHR '';'')"
  "((\<lambda>c. c \<noteq> CHR ''['') \<circ> lower_char) = (\<lambda>c. c \<noteq> CHR ''['')"
  "((\<lambda>c. c \<noteq> CHR '']'') \<circ> lower_char) = (\<lambda>c. c \<noteq> CHR '']'')"
  by (simp_all add: fun_eq_iff)



lemma lower_char_delims' [simp]:
  "(CHR '':'' = lower_char c) = (c = CHR '':'')"
  "(CHR ''/'' = lower_char c) = (c = CHR ''/'')"
  "(CHR ''?'' = lower_char c) = (c = CHR ''?'')"
  "(CHR ''#'' = lower_char c) = (c = CHR ''#'')"
  "(CHR '';'' = lower_char c) = (c = CHR '';'')"
  "(CHR ''['' = lower_char c) = (c = CHR ''['')"
  "(CHR '']'' = lower_char c) = (c = CHR '']'')"
  unfolding eq_commute[of _ "lower_char c"] by simp_all


lemma ascii_lower_Nil [simp]: "ascii_lower [] = []"
  by (simp add: ascii_lower_def)

lemma ascii_lower_eq_Nil [simp]: "ascii_lower s = [] \<longleftrightarrow> s = []"
  by (simp add: ascii_lower_def)









subsection \<open>What a key is made of\<close>




lemma set_before_char: "set (before_char d s) \<subseteq> set s - {d}"
  by (auto simp: before_char_def dest: set_takeWhileD)

lemma set_after_char: "set (after_char d s) \<subseteq> set s"
  by (auto simp: after_char_def dest: in_set_dropD set_dropWhileD)



















subsection \<open>Plain text is accepted\<close>

lemma plain_url_subset: "set s \<subseteq> set u \<Longrightarrow> plain_url u \<Longrightarrow> plain_url s"
  by (auto simp: plain_url_def list_all_iff)




lemma plain_url_append [simp]: "plain_url (a @ b) \<longleftrightarrow> plain_url a \<and> plain_url b"
  by (simp add: plain_url_def)

lemma plain_url_Cons [simp]: "plain_url (c # s) \<longleftrightarrow> plain_char c \<and> plain_url s"
  by (simp add: plain_url_def)

lemma plain_char_delims [simp]:
  "plain_char CHR ''/''" "plain_char CHR '':''" "plain_char CHR ''?''" "plain_char CHR ''#''"
  "plain_char CHR '';''"
  by (simp_all add: plain_char_def)

lemma plain_url_before [simp]: "plain_url s \<Longrightarrow> plain_url (before_char d s)"
  using set_before_char[of d s] by (auto intro: plain_url_subset)

lemma plain_url_after [simp]: "plain_url s \<Longrightarrow> plain_url (after_char d s)"
  using set_after_char[of d s] by (auto intro: plain_url_subset)


















subsection \<open>The scope test\<close>

text \<open>
  C10. \<open>is_college_url\<close> is a substring test on the network location: it answers \<open>True\<close>
  exactly for the URLs that \<open>urlparse\<close> accepts and whose netloc contains \<open>nitj.ac.in\<close>
  somewhere, so a foreign host such as \<open>nitj.ac.in.example.com\<close> is in scope; when
  \<open>urlparse\<close> raises, the answer is \<open>False\<close> and nothing is raised.
\<close>

theorem is_college_url_substring:
  "(is_college_url lib url \<longleftrightarrow>
      (\<exists>p. urlparse lib url = Inr p \<and> sublist ''nitj.ac.in'' (netloc p)))
   \<and> (urlparse lib url = Inl e \<longrightarrow> \<not> is_college_url lib url)
   \<and> is_college_url lib ''http://nitj.ac.in.example.com/x''"
proof -
  have a: "is_college_url lib url \<longleftrightarrow>
      (\<exists>p. urlparse lib url = Inr p \<and> sublist ''nitj.ac.in'' (netloc p))"
    by (cases "urlparse lib url") (simp_all add: is_college_url_def)
  have b: "urlparse lib ''http://nitj.ac.in.example.com/x'' =
      Inr \<lparr>scheme = ''http'', netloc = ''nitj.ac.in.example.com'', path = ''/x'',
           params = [], query = [], fragment = []\<rparr>"
    by (simp add: url_defs)
  have c: "is_college_url lib ''http://nitj.ac.in.example.com/x''"
    by (simp add: is_college_url_def b)
  from a c show ?thesis by auto
qed

theorem is_college_url_substring_witness:
  "urlparse lenient_lib ''http://[nitj.ac.in/'' = Inl ValueError
   \<and> \<not> is_college_url lenient_lib ''http://[nitj.ac.in/''"
proof -
  have "urlparse lenient_lib ''http://[nitj.ac.in/'' = Inl ValueError"
    by (simp add: url_defs)
  with is_college_url_substring [of lenient_lib "''http://[nitj.ac.in/''" ValueError]
  show ?thesis by simp
qed

subsection \<open>The normalizer\<close>








text \<open>
  Where a key is returned, more is done than lower-casing scheme and host: the whole URL is
  lower-cased, path and query too; every trailing slash of the path goes; a parameter with a
  blank value is dropped with the tracking parameters; path parameters are dropped with the
  fragment; and parameters with the same key are sorted by value.
\<close>

lemma normalize_url_further:
  "normalize_url lib ''http://site.edu/A?Q=Z'' None = Inr ''http://site.edu/a?q=z''"
  "normalize_url lib ''http://site.edu/a//'' None = Inr ''http://site.edu/a''"
  "normalize_url lib ''http://site.edu/a?b='' None = Inr ''http://site.edu/a''"
  "normalize_url lib ''http://site.edu/a;v=1?c=2'' None = Inr ''http://site.edu/a?c=2''"
  "normalize_url lib ''http://site.edu/a?k=2&k=1'' None = Inr ''http://site.edu/a?k=1&k=2''"
  by (simp_all add: normalize_url_def url_defs qs_defs)

section \<open>Properties of the crawler\<close>

subsection \<open>The checkpoint\<close>

text \<open>
  C8. A fetcher that starts from the storage file written by \<open>save_data\<close> has the same
  \<open>seen_links\<close>, \<open>downloadables\<close>, \<open>extracted_data\<close>, classification sets and
  \<open>google_drive_urls\<close> as the fetcher that saved it. (What \<open>pickle\<close> writes for a value
  is read back as that value.)
\<close>

theorem checkpoint_round_trip:
  "seen_links (init_fetcher u (storage (save_data st))) = seen_links st
   \<and> downloadables (init_fetcher u (storage (save_data st))) = downloadables st
   \<and> extracted_data (init_fetcher u (storage (save_data st))) = extracted_data st
   \<and> non_college_urls (init_fetcher u (storage (save_data st))) = non_college_urls st
   \<and> urls_not_fetched (init_fetcher u (storage (save_data st))) = urls_not_fetched st
   \<and> error_urls (init_fetcher u (storage (save_data st))) = error_urls st
   \<and> google_drive_urls (init_fetcher u (storage (save_data st))) = google_drive_urls st"
  by (simp add: init_fetcher_def save_data_def load_data_def dict_get_def)

subsection \<open>The frontier, the seen links and the requests\<close>

lemma discovers_refl [simp]: "discovers st st"
  by (simp add: discovers_def)

lemma seen_keys_dom: "seen_keys st = dom (map_of (seen_links st))"
  by (simp add: seen_keys_def dom_map_of_conv_image_fst)

lemma discovers_seen_keys: "discovers st st' \<Longrightarrow> seen_keys st \<subseteq> seen_keys st'"
  by (auto simp: discovers_def seen_keys_dom dest: map_le_implies_dom_le)

lemma discovers_trans: "discovers a b \<Longrightarrow> discovers b c \<Longrightarrow> discovers a c"
proof -
  assume ab: "discovers a b" and bc: "discovers b c"
  have 1: "map_of (seen_links a) \<subseteq>\<^sub>m map_of (seen_links c)"
    using ab bc by (auto simp: discovers_def intro: map_le_trans)
  have 2: "seen_keys a \<subseteq> seen_keys b" "seen_keys b \<subseteq> seen_keys c"
    using ab bc by (auto dest: discovers_seen_keys)
  have 3: "frontier_keys b \<subseteq> frontier_keys a \<union> (seen_keys b - seen_keys a)"
    "frontier_keys c \<subseteq> frontier_keys b \<union> (seen_keys c - seen_keys b)"
    using ab bc by (auto simp: discovers_def)
  from 2 3 have "frontier_keys c \<subseteq> frontier_keys a \<union> (seen_keys c - seen_keys a)"
    by blast
  with 1 show ?thesis by (simp add: discovers_def)
qed

lemma discovers_same:
  "seen_links st' = seen_links st \<Longrightarrow> relevant_links st' = relevant_links st \<Longrightarrow> discovers st st'"
  by (simp add: discovers_def seen_keys_def frontier_keys_def)

lemma discovers_cong:
  "discovers st st' \<Longrightarrow> seen_links st'' = seen_links st' \<Longrightarrow> relevant_links st'' = relevant_links st'
   \<Longrightarrow> discovers st st''"
  by (simp add: discovers_def seen_keys_def frontier_keys_def)

lemma discovers_enqueue:
  assumes "k \<notin> set (map fst (seen_links st))"
  shows "discovers st (st\<lparr>seen_links := AList.update k h (seen_links st),
                          relevant_links := AList.update k u (relevant_links st)\<rparr>)"
proof -
  have "map_of (seen_links st) k = None"
    using assms by (simp add: map_of_eq_None_iff)
  then have "map_of (seen_links st) \<subseteq>\<^sub>m (map_of (seen_links st))(k \<mapsto> h)"
    by (auto simp: map_le_def)
  then show ?thesis
    using assms by (auto simp: discovers_def update_conv' seen_keys_def frontier_keys_def dom_update)
qed

lemma handle_downloadable_links:
  assumes "handle_downloadable w full_url a_text ls = (r, ls')"
  shows "seen_links (fetcher ls') = seen_links (fetcher ls)
       \<and> relevant_links (fetcher ls') = relevant_links (fetcher ls)"
  using assms
  by (auto simp: handle_downloadable_def Let_def download_file_def
      split: sum.splits prod.splits if_splits option.splits)

lemma process_href_discovers:
  assumes "process_href w a ls = (r, ls')"
  shows "discovers (fetcher ls) (fetcher ls')"
proof -
  have e: "discovers (fetcher ls) ((fetcher ls)\<lparr>effects := x\<rparr>)" for x
    by (rule discovers_same) simp_all
  have q: "k \<notin> set (map fst (seen_links (fetcher ls))) \<Longrightarrow>
      discovers (fetcher ls)
        ((fetcher ls)\<lparr>effects := x,
           seen_links := AList.update k h (seen_links (fetcher ls)),
           relevant_links := AList.update k u (relevant_links (fetcher ls))\<rparr>)" for k h u x
    using discovers_enqueue[where k=k and st="(fetcher ls)\<lparr>effects := x\<rparr>" and h=h and u=u] e[of x]
    by (auto intro: discovers_trans)
  show ?thesis
    using assms e q
    by (auto simp: process_href_def Let_def fetch_and_hash_content_def
        split: sum.splits prod.splits if_splits
        dest!: handle_downloadable_links intro: discovers_same)
qed

lemma process_hrefs_discovers:
  "process_hrefs w as ls = (r, ls') \<Longrightarrow> discovers (fetcher ls) (fetcher ls')"
proof (induction as arbitrary: ls)
  case Nil
  then show ?case by simp
next
  case (Cons a as)
  obtain r1 ls1 where s: "process_href w a ls = (r1, ls1)" by (cases "process_href w a ls")
  note d = process_href_discovers[OF s]
  show ?case
  proof (cases r1)
    case None
    with Cons s have "process_hrefs w as ls1 = (r, ls')" by simp
    from Cons.IH[OF this] d show ?thesis by (rule discovers_trans[rotated])
  next
    case (Some e)
    with Cons s d show ?thesis by simp
  qed
qed

lemma process_href_links_discovers:
  assumes "process_href_links w all_links st = (r, st')"
  shows "discovers st st'"
proof -
  let ?ls = "\<lparr>fetcher = st,
      downloadables_data = [(''pdf'', []), (''docx'', []), (''xlsx'', []), (''zip'', [])],
      name_counter = 1\<rparr>"
  obtain e ls where s: "process_hrefs w all_links ?ls = (e, ls)"
    by (cases "process_hrefs w all_links ?ls")
  from process_hrefs_discovers[OF s] have "discovers st (fetcher ls)" by simp
  moreover from assms s have "st' = fetcher ls"
    by (auto simp: process_href_links_def split: option.splits)
  ultimately show ?thesis by simp
qed

lemma fetch_content_discovers:
  assumes "fetch_content w url st = (r, st')"
  shows "discovers st st'"
proof (cases "page_load w (length (effects st)) url")
  case (PageRaises cur)
  with assms show ?thesis
    by (auto simp: fetch_content_def Let_def intro: discovers_same)
next
  case (Loaded cur pd all_links)
  let ?st1 = "st\<lparr>effects := effects st @ [PageGet url], current_url := cur\<rparr>"
  obtain x st2 where s: "process_href_links w all_links ?st1 = (x, st2)"
    by (cases "process_href_links w all_links ?st1")
  have "discovers st ?st1" by (rule discovers_same) simp_all
  from this process_href_links_discovers[OF s] have "discovers st st2"
    by (rule discovers_trans)
  moreover from assms Loaded s have "st' = st2"
    by (auto simp: fetch_content_def Let_def split: sum.splits)
  ultimately show ?thesis by simp
qed

lemma store_pdf_links:
  assumes "store_pdf n p u f st = (r, st')"
  shows "seen_links st' = seen_links st \<and> relevant_links st' = relevant_links st"
  using assms by (auto simp: store_pdf_def Let_def split: option.splits)

lemma process_entry_discovers:
  assumes "process_entry w url st = (r, st')"
  shows "discovers st st'"
proof (cases "normalize_url (stdlib w) url None")
  case (Inl e)
  with assms show ?thesis by (simp add: process_entry_def)
next
  case (Inr key)
  show ?thesis
  proof (cases "is_college_url (stdlib w) url \<and> \<not> is_pdf_url (stdlib w) url \<and> \<not> is_google_drive_url url
      \<and> head_request w (length (effects st)) url = Status 200")
    case True
    let ?st1 = "st\<lparr>effects := effects st @ [HeadProbe url]\<rparr>"
    obtain x st2 where s: "fetch_content w url ?st1 = (x, st2)"
      by (cases "fetch_content w url ?st1")
    have "discovers st ?st1" by (rule discovers_same) simp_all
    from this fetch_content_discovers[OF s] have d: "discovers st st2"
      by (rule discovers_trans)
    from assms Inr True s have
      "seen_links st' = seen_links st2 \<and> relevant_links st' = relevant_links st2"
      by (auto simp: process_entry_def can_fetch_content_def split: sum.splits)
    with d show ?thesis by (auto intro: discovers_cong)
  next
    case False
    with assms Inr have
      "seen_links st' = seen_links st \<and> relevant_links st' = relevant_links st"
      by (auto simp: process_entry_def Let_def can_fetch_content_def download_file_def
          split: sum.splits prod.splits if_splits option.splits head_result.splits
          dest!: store_pdf_links)
    then show ?thesis by (simp add: discovers_same)
  qed
qed

lemma process_snapshot_discovers:
  "process_snapshot w snapshot st = (r, st') \<Longrightarrow> discovers st st'"
proof (induction snapshot arbitrary: st)
  case Nil
  then show ?case by simp
next
  case (Cons entry rest)
  obtain key url where entry: "entry = (key, url)" by (cases entry)
  obtain r1 st1 where s: "process_entry w url st = (r1, st1)" by (cases "process_entry w url st")
  note d = process_entry_discovers[OF s]
  show ?case
  proof (cases r1)
    case None
    with Cons.prems entry s have "process_snapshot w rest st1 = (r, st')" by simp
    from d Cons.IH[OF this] show ?thesis by (rule discovers_trans)
  next
    case (Some e)
    with Cons.prems entry s d show ?thesis by simp
  qed
qed

lemma process_wave_discovers:
  assumes "process_wave w st = (r, st')"
  shows "discovers (st\<lparr>relevant_links := []\<rparr>) st'"
  using assms by (simp add: process_wave_def process_snapshot_discovers)

lemma requests_withinI:
  "effects st' = effects st @ es \<Longrightarrow> page_requests es \<subseteq> urls \<Longrightarrow> requests_within urls st st'"
  by (simp add: requests_within_def new_effects_def)

lemma requests_withinE:
  assumes "requests_within urls st st'"
  obtains es where "effects st' = effects st @ es" "page_requests es \<subseteq> urls"
  using assms by (auto simp: requests_within_def new_effects_def prefix_def)

lemma page_requests_append [simp]:
  "page_requests (xs @ ys) = page_requests xs \<union> page_requests ys"
  by (simp add: page_requests_def)

lemma page_requests_simps [simp]:
  "page_requests [] = {}"
  "page_requests (HashGet u # es) = page_requests es"
  "page_requests (Download u # es) = page_requests es"
  "page_requests (HeadProbe u # es) = insert u (page_requests es)"
  "page_requests (PageGet u # es) = insert u (page_requests es)"
  by (simp_all add: page_requests_def)

lemma requests_within_refl [simp]: "requests_within urls st st"
  by (simp add: requests_within_def new_effects_def page_requests_def)

lemma requests_within_trans:
  assumes "requests_within urls a b" "requests_within urls b c"
  shows "requests_within urls a c"
proof -
  from assms(1) obtain es where 1: "effects b = effects a @ es" "page_requests es \<subseteq> urls"
    by (rule requests_withinE)
  from assms(2) obtain fs where 2: "effects c = effects b @ fs" "page_requests fs \<subseteq> urls"
    by (rule requests_withinE)
  show ?thesis
    by (rule requests_withinI[of _ _ "es @ fs"]) (use 1 2 in auto)
qed

lemma requests_within_mono:
  "requests_within urls st st' \<Longrightarrow> urls \<subseteq> urls' \<Longrightarrow> requests_within urls' st st'"
  by (auto simp: requests_within_def)

lemma requests_within_cong:
  "requests_within urls st st' \<Longrightarrow> effects st'' = effects st' \<Longrightarrow> requests_within urls st st''"
  by (simp add: requests_within_def new_effects_def)

lemma handle_downloadable_effects:
  assumes "handle_downloadable w full_url a_text ls = (r, ls')"
  shows "effects (fetcher ls') = effects (fetcher ls)
      \<or> effects (fetcher ls') = effects (fetcher ls) @ [Download full_url]"
  using assms
  by (auto simp: handle_downloadable_def Let_def download_file_def
      split: sum.splits prod.splits if_splits option.splits)

lemma process_href_effects:
  assumes "process_href w a ls = (r, ls')"
  shows "effects (fetcher ls') = effects (fetcher ls)
      \<or> (\<exists>u. effects (fetcher ls') = effects (fetcher ls) @ [Download u])
      \<or> (\<exists>u. effects (fetcher ls') = effects (fetcher ls) @ [HashGet u])"
  using assms
  by (auto simp: process_href_def Let_def fetch_and_hash_content_def
      split: sum.splits prod.splits if_splits
      dest!: handle_downloadable_effects)

lemma process_href_requests:
  assumes "process_href w a ls = (r, ls')"
  shows "requests_within {} (fetcher ls) (fetcher ls')"
  using process_href_effects[OF assms]
  by (auto intro: requests_withinI[of _ _ "[]"] requests_withinI[of _ _ "[Download _]"]
      requests_withinI[of _ _ "[HashGet _]"])

lemma process_hrefs_requests:
  "process_hrefs w as ls = (r, ls') \<Longrightarrow> requests_within {} (fetcher ls) (fetcher ls')"
proof (induction as arbitrary: ls)
  case Nil
  then show ?case by simp
next
  case (Cons a as)
  obtain r1 ls1 where s: "process_href w a ls = (r1, ls1)" by (cases "process_href w a ls")
  note d = process_href_requests[OF s]
  show ?case
  proof (cases r1)
    case None
    with Cons s have "process_hrefs w as ls1 = (r, ls')" by simp
    from d Cons.IH[OF this] show ?thesis by (rule requests_within_trans)
  next
    case (Some e)
    with Cons s d show ?thesis by simp
  qed
qed

lemma process_href_links_requests:
  assumes "process_href_links w all_links st = (r, st')"
  shows "requests_within {} st st'"
proof -
  let ?ls = "\<lparr>fetcher = st,
      downloadables_data = [(''pdf'', []), (''docx'', []), (''xlsx'', []), (''zip'', [])],
      name_counter = 1\<rparr>"
  obtain e ls where s: "process_hrefs w all_links ?ls = (e, ls)"
    by (cases "process_hrefs w all_links ?ls")
  from process_hrefs_requests[OF s] have "requests_within {} st (fetcher ls)" by simp
  moreover from assms s have "st' = fetcher ls"
    by (auto simp: process_href_links_def split: option.splits)
  ultimately show ?thesis by simp
qed

lemma fetch_content_requests:
  assumes "fetch_content w url st = (r, st')"
  shows "requests_within {url} st st'"
proof (cases "page_load w (length (effects st)) url")
  case (PageRaises cur)
  with assms show ?thesis
    by (auto simp: fetch_content_def Let_def intro!: requests_withinI[of _ _ "[PageGet url]"])
next
  case (Loaded cur pd all_links)
  let ?st1 = "st\<lparr>effects := effects st @ [PageGet url], current_url := cur\<rparr>"
  obtain x st2 where s: "process_href_links w all_links ?st1 = (x, st2)"
    by (cases "process_href_links w all_links ?st1")
  have a: "requests_within {url} st ?st1"
    by (rule requests_withinI[of _ _ "[PageGet url]"]) simp_all
  have b: "requests_within {url} ?st1 st2"
    using process_href_links_requests[OF s] by (rule requests_within_mono) simp
  from a b have "requests_within {url} st st2" by (rule requests_within_trans)
  moreover from assms Loaded s have "st' = st2"
    by (auto simp: fetch_content_def Let_def split: sum.splits)
  ultimately show ?thesis by simp
qed

lemma store_pdf_effects:
  assumes "store_pdf n p u f st = (r, st')"
  shows "effects st' = effects st"
  using assms by (auto simp: store_pdf_def Let_def split: option.splits)

lemma process_entry_requests:
  assumes "process_entry w url st = (r, st')"
  shows "requests_within {url} st st'"
proof (cases "normalize_url (stdlib w) url None")
  case (Inl e)
  with assms show ?thesis by (simp add: process_entry_def)
next
  case (Inr key)
  show ?thesis
  proof (cases "is_college_url (stdlib w) url \<and> \<not> is_pdf_url (stdlib w) url \<and> \<not> is_google_drive_url url
      \<and> head_request w (length (effects st)) url = Status 200")
    case True
    let ?st1 = "st\<lparr>effects := effects st @ [HeadProbe url]\<rparr>"
    obtain x st2 where s: "fetch_content w url ?st1 = (x, st2)"
      by (cases "fetch_content w url ?st1")
    have "requests_within {url} st ?st1"
      by (rule requests_withinI[of _ _ "[HeadProbe url]"]) simp_all
    from this fetch_content_requests[OF s] have d: "requests_within {url} st st2"
      by (rule requests_within_trans)
    from assms Inr True s have "effects st' = effects st2"
      by (auto simp: process_entry_def can_fetch_content_def split: sum.splits)
    with d show ?thesis by (auto intro: requests_within_cong)
  next
    case False
    with assms Inr have
      "effects st' = effects st \<or> (\<exists>u. effects st' = effects st @ [Download u])
       \<or> effects st' = effects st @ [HeadProbe url]"
      by (auto simp: process_entry_def Let_def can_fetch_content_def download_file_def
          split: sum.splits prod.splits if_splits option.splits head_result.splits
          dest!: store_pdf_effects)
    then show ?thesis
      by (auto intro: requests_withinI[of _ _ "[]"] requests_withinI[of _ _ "[Download _]"]
          requests_withinI[of _ _ "[HeadProbe url]"])
  qed
qed

lemma process_snapshot_requests:
  "process_snapshot w snapshot st = (r, st') \<Longrightarrow> requests_within (snd ` set snapshot) st st'"
proof (induction snapshot arbitrary: st)
  case Nil
  then show ?case by simp
next
  case (Cons entry rest)
  obtain key url where entry: "entry = (key, url)" by (cases entry)
  obtain r1 st1 where s: "process_entry w url st = (r1, st1)" by (cases "process_entry w url st")
  have d: "requests_within (snd ` set (entry # rest)) st st1"
    using process_entry_requests[OF s] by (rule requests_within_mono) (simp add: entry)
  show ?case
  proof (cases r1)
    case None
    with Cons.prems entry s have "process_snapshot w rest st1 = (r, st')" by simp
    from Cons.IH[OF this] have "requests_within (snd ` set (entry # rest)) st1 st'"
      by (rule requests_within_mono) auto
    with d show ?thesis by (rule requests_within_trans)
  next
    case (Some e)
    with Cons.prems entry s d show ?thesis by simp
  qed
qed

lemma seed_frontier_discovers:
  assumes "seed_frontier w url st = (x, st')"
  shows "discovers st st'"
proof -
  have e: "discovers st (st\<lparr>effects := es\<rparr>)" for es
    by (rule discovers_same) simp_all
  have q: "k \<notin> set (map fst (seen_links st)) \<Longrightarrow>
      discovers st (st\<lparr>effects := es, seen_links := AList.update k h (seen_links st),
           relevant_links := AList.update k u (relevant_links st)\<rparr>)" for k h u es
    using discovers_enqueue[where k=k and st="st\<lparr>effects := es\<rparr>" and h=h and u=u] e[of es]
    by (auto intro: discovers_trans)
  show ?thesis
    using assms e q
    by (auto simp: seed_frontier_def Let_def fetch_and_hash_content_def
        split: sum.splits prod.splits if_splits)
qed

lemma process_wave_discovers_from:
  assumes "process_wave w st = (r, st')"
  shows "discovers st st'"
  using process_wave_discovers[OF assms]
  by (auto simp: discovers_def seen_keys_def frontier_keys_def)

lemma run_waves_discovers:
  "run_waves n w st = Some (r, st') \<Longrightarrow> discovers st st'"
proof (induction n arbitrary: st)
  case 0
  then show ?case by (auto split: if_splits)
next
  case (Suc n)
  show ?case
  proof (cases "relevant_links st = []")
    case True
    with Suc.prems show ?thesis by simp
  next
    case False
    obtain r1 st1 where s: "process_wave w st = (r1, st1)" by (cases "process_wave w st")
    note d = process_wave_discovers_from[OF s]
    show ?thesis
    proof (cases r1)
      case None
      with Suc.prems False s have "run_waves n w st1 = Some (r, st')" by simp
      from d Suc.IH[OF this] show ?thesis by (rule discovers_trans)
    next
      case (Some e)
      with Suc.prems False s d show ?thesis by simp
    qed
  qed
qed

lemma process_url_discovers:
  assumes "process_url n w url st = Some (r, st')"
  shows "discovers st st'"
proof -
  obtain x st1 where s: "seed_frontier w url st = (x, st1)" by (cases "seed_frontier w url st")
  note d = seed_frontier_discovers[OF s]
  show ?thesis
  proof (cases "x = Inr True")
    case False
    with assms s d show ?thesis
      by (cases x) (auto simp: process_url_def)
  next
    case True
    with assms s obtain r2 st2 where w2: "run_waves n w st1 = Some (r2, st2)"
      and st': "st' = st2 \<or> st' = save_data st2"
      by (auto simp: process_url_def split: option.splits)
    from d run_waves_discovers[OF w2] have "discovers st st2" by (rule discovers_trans)
    with st' show ?thesis
      by (auto simp: save_data_def intro: discovers_cong)
  qed
qed

lemma discovers_new_keys:
  "discovers st st' \<Longrightarrow>
     map_of (seen_links st) \<subseteq>\<^sub>m map_of (seen_links st')
     \<and> frontier_keys st' - frontier_keys st \<subseteq> seen_keys st' - seen_keys st"
  by (auto simp: discovers_def)


subsection \<open>The wave discipline\<close>

text \<open>
  C4. The wave discipline. Wherever a key is put into the frontier, for a link of a page and
  for the seed, the key was not in \<open>seen_links\<close> before and is in it afterwards, and no entry
  of \<open>seen_links\<close> is lost. A wave processes the snapshot of the frontier, starting from the
  cleared frontier: the pages it probes or loads are URLs of the snapshot, and when the keys
  of the frontier are keys of \<open>seen_links\<close>, as they are from the start, every key of the
  frontier left by the wave is new in \<open>seen_links\<close> and none is a key of the snapshot. So a link
  found during a wave waits for the next wave. A whole \<open>process_url\<close> keeps the keys of the
  frontier among the keys of \<open>seen_links\<close>.
\<close>

theorem wave_discipline:
  "(process_href w a ls = (r, ls') \<longrightarrow>
       map_of (seen_links (fetcher ls)) \<subseteq>\<^sub>m map_of (seen_links (fetcher ls'))
     \<and> frontier_keys (fetcher ls') - frontier_keys (fetcher ls)
          \<subseteq> seen_keys (fetcher ls') - seen_keys (fetcher ls))
   \<and> (seed_frontier w url st = (x, st1) \<longrightarrow>
       map_of (seen_links st) \<subseteq>\<^sub>m map_of (seen_links st1)
     \<and> frontier_keys st1 - frontier_keys st \<subseteq> seen_keys st1 - seen_keys st)
   \<and> (frontier_keys st \<subseteq> seen_keys st \<and> process_wave w st = (p, st2) \<longrightarrow>
       process_wave w st = process_snapshot w (relevant_links st) (st\<lparr>relevant_links := []\<rparr>)
     \<and> prefix (effects st) (effects st2)
     \<and> page_requests (new_effects st st2) \<subseteq> snd ` set (relevant_links st)
     \<and> map_of (seen_links st) \<subseteq>\<^sub>m map_of (seen_links st2)
     \<and> frontier_keys st2 \<subseteq> seen_keys st2 - seen_keys st
     \<and> frontier_keys st2 \<inter> frontier_keys st = {})
   \<and> (frontier_keys st \<subseteq> seen_keys st \<and> process_url n w url st = Some (q, st3) \<longrightarrow>
       map_of (seen_links st) \<subseteq>\<^sub>m map_of (seen_links st3)
     \<and> frontier_keys st3 \<subseteq> seen_keys st3)
   \<and> frontier_keys (init_fetcher u f) = {}"
proof (intro conjI impI)
  assume "process_href w a ls = (r, ls')"
  from discovers_new_keys[OF process_href_discovers[OF this]]
  show "map_of (seen_links (fetcher ls)) \<subseteq>\<^sub>m map_of (seen_links (fetcher ls'))"
    and "frontier_keys (fetcher ls') - frontier_keys (fetcher ls)
          \<subseteq> seen_keys (fetcher ls') - seen_keys (fetcher ls)"
    by simp_all
next
  assume "seed_frontier w url st = (x, st1)"
  from discovers_new_keys[OF seed_frontier_discovers[OF this]]
  show "map_of (seen_links st) \<subseteq>\<^sub>m map_of (seen_links st1)"
    and "frontier_keys st1 - frontier_keys st \<subseteq> seen_keys st1 - seen_keys st"
    by simp_all
next
  assume a: "frontier_keys st \<subseteq> seen_keys st \<and> process_wave w st = (p, st2)"
  then have inv: "frontier_keys st \<subseteq> seen_keys st" and run: "process_wave w st = (p, st2)"
    by simp_all
  show "process_wave w st = process_snapshot w (relevant_links st) (st\<lparr>relevant_links := []\<rparr>)"
    by (simp add: process_wave_def)
  from run have "requests_within (snd ` set (relevant_links st)) (st\<lparr>relevant_links := []\<rparr>) st2"
    by (simp add: process_wave_def process_snapshot_requests)
  then show "prefix (effects st) (effects st2)"
    and "page_requests (new_effects st st2) \<subseteq> snd ` set (relevant_links st)"
    by (simp_all add: requests_within_def new_effects_def)
  from process_wave_discovers[OF run]
  have d: "map_of (seen_links st) \<subseteq>\<^sub>m map_of (seen_links st2)"
    "frontier_keys st2 \<subseteq> seen_keys st2 - seen_keys st"
    by (auto simp: discovers_def frontier_keys_def seen_keys_def)
  from d show "map_of (seen_links st) \<subseteq>\<^sub>m map_of (seen_links st2)" by simp
  from d show "frontier_keys st2 \<subseteq> seen_keys st2 - seen_keys st" by simp
  from d inv show "frontier_keys st2 \<inter> frontier_keys st = {}" by blast
next
  assume "frontier_keys st \<subseteq> seen_keys st \<and> process_url n w url st = Some (q, st3)"
  then have inv: "frontier_keys st \<subseteq> seen_keys st"
    and d: "discovers st st3"
    by (auto intro: process_url_discovers)
  from d show "map_of (seen_links st) \<subseteq>\<^sub>m map_of (seen_links st3)"
    by (simp add: discovers_def)
  from d inv discovers_seen_keys[OF d] show "frontier_keys st3 \<subseteq> seen_keys st3"
    unfolding discovers_def by blast
next
  show "frontier_keys (init_fetcher u f) = {}"
    by (cases f) (simp_all add: init_fetcher_def frontier_keys_def load_data_def Let_def)
qed

text \<open>The wave of the home page of a site whose home page links to another host.\<close>

theorem wave_discipline_witness:
  "frontier_keys seeded_fetcher \<subseteq> seen_keys seeded_fetcher
   \<and> fst (process_wave foreign_link_site seeded_fetcher) = None
   \<and> frontier_keys seeded_fetcher = {''http://nitj.ac.in''}
   \<and> frontier_keys (snd (process_wave foreign_link_site seeded_fetcher)) = {''http://example.com/x''}
   \<and> frontier_keys (snd (process_wave foreign_link_site seeded_fetcher))
        \<inter> frontier_keys seeded_fetcher = {}
   \<and> page_requests (new_effects seeded_fetcher (snd (process_wave foreign_link_site seeded_fetcher)))
        \<subseteq> snd ` set (relevant_links seeded_fetcher)"
proof -
  let ?st2 = "snd (process_wave foreign_link_site seeded_fetcher)"
  have 1: "frontier_keys seeded_fetcher \<subseteq> seen_keys seeded_fetcher" by code_simp
  have 2: "process_wave foreign_link_site seeded_fetcher
      = (fst (process_wave foreign_link_site seeded_fetcher), ?st2)" by simp
  from wave_discipline[where w=foreign_link_site and st=seeded_fetcher
      and p="fst (process_wave foreign_link_site seeded_fetcher)" and ?st2.0="?st2"] 1 2
  have 3: "frontier_keys ?st2 \<inter> frontier_keys seeded_fetcher = {}"
    and 4: "page_requests (new_effects seeded_fetcher ?st2) \<subseteq> snd ` set (relevant_links seeded_fetcher)"
    by blast+
  have 5: "fst (process_wave foreign_link_site seeded_fetcher) = None" by code_simp
  have 6: "frontier_keys seeded_fetcher = {''http://nitj.ac.in''}" by code_simp
  have 7: "frontier_keys ?st2 = {''http://example.com/x''}" by code_simp
  from 1 3 4 5 6 7 show ?thesis by blast
qed

subsection \<open>Out-of-scope URLs\<close>

text \<open>
  C1, as amended. When a wave comes to a URL of the frontier whose host does not match the
  domain, it sends no request at all for it, whatever the path or extension: no page load, no
  reachability probe, no fingerprint request, no download. The URL is put into
  \<open>non_college_urls\<close> and nothing else changes.
\<close>

theorem out_of_scope_entry:
  "\<not> is_college_url (stdlib w) url \<Longrightarrow>
     effects (snd (process_entry w url st)) = effects st
   \<and> (normalize_url (stdlib w) url None = Inr key \<longrightarrow>
        process_entry w url st = (None, st\<lparr>non_college_urls := insert url (non_college_urls st)\<rparr>))"
  by (simp add: process_entry_def split: sum.splits)

text \<open>A foreign URL with a document extension.\<close>

theorem out_of_scope_entry_witness:
  "\<not> is_college_url (stdlib foreign_link_site) ''http://example.com/x.pdf''
   \<and> normalize_url (stdlib foreign_link_site) ''http://example.com/x.pdf'' None
       = Inr ''http://example.com/x.pdf''
   \<and> process_entry foreign_link_site ''http://example.com/x.pdf'' fresh_fetcher =
      (None, fresh_fetcher\<lparr>non_college_urls :=
               insert ''http://example.com/x.pdf'' (non_college_urls fresh_fetcher)\<rparr>)"
proof -
  have a: "\<not> is_college_url (stdlib foreign_link_site) ''http://example.com/x.pdf''"
    by code_simp
  have b: "normalize_url (stdlib foreign_link_site) ''http://example.com/x.pdf'' None
       = Inr ''http://example.com/x.pdf''"
    by code_simp
  from out_of_scope_entry[OF a, where st=fresh_fetcher and key="''http://example.com/x.pdf''"] a b
  show ?thesis by blast
qed

text \<open>
  C1 as stated fails: the scope is tested only when a wave processes the frontier, after the
  link has been fingerprinted. A crawl of a home page that links to \<open>http://example.com/x\<close>
  sends a fingerprint request to that URL, though its host is out of scope, and only then
  records it in \<open>non_college_urls\<close>.
\<close>

theorem foreign_link_fingerprinted:
  "\<not> is_college_url (stdlib foreign_link_site) ''http://example.com/x''
   \<and> map_option (effects \<circ> snd)
        (process_url 2 foreign_link_site ''http://nitj.ac.in/'' fresh_fetcher)
     = Some [HashGet ''http://nitj.ac.in/'', HashGet ''http://nitj.ac.in/'',
             HeadProbe ''http://nitj.ac.in/'', PageGet ''http://nitj.ac.in/'',
             HashGet ''http://example.com/x'']
   \<and> map_option (non_college_urls \<circ> snd)
        (process_url 2 foreign_link_site ''http://nitj.ac.in/'' fresh_fetcher)
     = Some {''http://example.com/x''}"
  by (intro conjI; code_simp)

subsection \<open>Failed requests\<close>




text \<open>
  The reachability probe is the one request whose failure is caught in part only. When the
  HEAD request raises a \<open>requests.RequestException\<close> the URL is put into \<open>urls_not_fetched\<close>
  and the wave goes on; another exception of the request leaves \<open>can_fetch_content\<close> and the
  wave with it.
\<close>

lemma probe_failure:
  assumes "normalize_url (stdlib w) url None = Inr key" "is_college_url (stdlib w) url"
    and "\<not> is_pdf_url (stdlib w) url" "\<not> is_google_drive_url url"
  shows "head_request w (length (effects st)) url = RequestException \<Longrightarrow>
           process_entry w url st =
             (None, st\<lparr>effects := effects st @ [HeadProbe url],
                       urls_not_fetched := insert url (urls_not_fetched st)\<rparr>)"
    and "head_request w (length (effects st)) url = OtherException \<Longrightarrow>
           process_entry w url st = (Some HeadError, st\<lparr>effects := effects st @ [HeadProbe url]\<rparr>)"
  using assms by (simp_all add: process_entry_def can_fetch_content_def)

subsection \<open>Links without fingerprint\<close>

text \<open>
  C3, as amended. When the hasher gives no fingerprint (or an empty one) for a link whose
  key is new, the link is dropped without an error: the only change is the request sent, so
  the key is neither recorded in \<open>seen_links\<close> nor put into the frontier.
\<close>

theorem link_without_fingerprint_dropped:
  assumes "urljoin (stdlib w) (current_url (fetcher ls)) (href a) = Inr full_url"
    and "normalize_url (stdlib w) full_url None = Inr key"
    and "\<not> list_ex (\<lambda>ext. suffix ext (href a)) media_extensions"
    and "\<not> list_ex (\<lambda>ext. suffix ext (href a)) document_extensions"
    and "key \<noteq> []" and "key \<notin> seen_keys (fetcher ls)"
    and "\<not> truthy (hash_response w (length (effects (fetcher ls))) full_url)"
  shows "process_href w a ls =
    (None, ls\<lparr>fetcher := (fetcher ls)\<lparr>effects := effects (fetcher ls) @ [HashGet full_url]\<rparr>\<rparr>)"
  using assms
  by (simp add: process_href_def Let_def fetch_and_hash_content_def seen_keys_def)

text \<open>The link \<open>/new\<close> of the home page, on a site that gives no fingerprint for it.\<close>

theorem link_without_fingerprint_dropped_witness:
  "urljoin (stdlib unfingerprinted_link_site) (current_url (fetcher home_links)) ''/new''
     = Inr ''http://nitj.ac.in/new''
   \<and> ''http://nitj.ac.in/new'' \<notin> seen_keys (fetcher home_links)
   \<and> \<not> truthy (hash_response unfingerprinted_link_site (length (effects (fetcher home_links)))
                 ''http://nitj.ac.in/new'')
   \<and> process_href unfingerprinted_link_site \<lparr>href = ''/new'', description = ''new page''\<rparr> home_links
      = (None, home_links\<lparr>fetcher := (fetcher home_links)
           \<lparr>effects := effects (fetcher home_links) @ [HashGet ''http://nitj.ac.in/new'']\<rparr>\<rparr>)"
proof -
  let ?a = "\<lparr>href = ''/new'', description = ''new page''\<rparr>"
  have 1: "urljoin (stdlib unfingerprinted_link_site) (current_url (fetcher home_links)) (href ?a)
     = Inr ''http://nitj.ac.in/new''" by code_simp
  have 2: "normalize_url (stdlib unfingerprinted_link_site) ''http://nitj.ac.in/new'' None
     = Inr ''http://nitj.ac.in/new''" by code_simp
  have 3: "\<not> list_ex (\<lambda>ext. suffix ext (href ?a)) media_extensions" by code_simp
  have 4: "\<not> list_ex (\<lambda>ext. suffix ext (href ?a)) document_extensions" by code_simp
  have 5: "''http://nitj.ac.in/new'' \<noteq> []" by simp
  have 6: "''http://nitj.ac.in/new'' \<notin> seen_keys (fetcher home_links)" by code_simp
  have 7: "\<not> truthy (hash_response unfingerprinted_link_site (length (effects (fetcher home_links)))
                 ''http://nitj.ac.in/new'')" by code_simp
  from link_without_fingerprint_dropped[OF 1 2 3 4 5 6 7] 1 6 7
  show ?thesis by simp
qed

text \<open>
  C3 as stated fails: the home page links to \<open>/new\<close>, whose fingerprint request fails. The
  crawl ends with the home page alone in \<open>seen_links\<close>, and \<open>/new\<close> is never probed or loaded.
\<close>

theorem unfingerprinted_link_lost:
  "hash_response unfingerprinted_link_site 4 ''http://nitj.ac.in/new'' = None
   \<and> map_option (effects \<circ> snd)
        (process_url 2 unfingerprinted_link_site ''http://nitj.ac.in/'' fresh_fetcher)
     = Some [HashGet ''http://nitj.ac.in/'', HashGet ''http://nitj.ac.in/'',
             HeadProbe ''http://nitj.ac.in/'', PageGet ''http://nitj.ac.in/'',
             HashGet ''http://nitj.ac.in/new'']
   \<and> map_option (seen_links \<circ> snd)
        (process_url 2 unfingerprinted_link_site ''http://nitj.ac.in/'' fresh_fetcher)
     = Some [(''http://nitj.ac.in'', Some ''digest of home'')]"
  by (intro conjI; code_simp)

subsection \<open>The duplicate decision\<close>

text \<open>
  C5, as amended. A link of a page is recorded and enqueued exactly when its key is not
  empty and not a key of \<open>seen_links\<close> and its fingerprint is present, not empty and not a
  value of \<open>seen_links\<close>; it is recorded as the pair of its key and that fingerprint, and
  otherwise \<open>seen_links\<close> and the frontier are left alone. So a link without fingerprint is
  treated like a duplicate. A seed whose key is in \<open>seen_links\<close> is judged seen without a
  request; a seed with a new key and a fingerprint is judged seen exactly when the fingerprint
  is a value of \<open>seen_links\<close>, and is otherwise recorded and put into the frontier.
\<close>

theorem dedup_decision:
  "(urljoin (stdlib w) (current_url (fetcher ls)) (href a) = Inr full_url
      \<and> normalize_url (stdlib w) full_url None = Inr key
      \<and> \<not> list_ex (\<lambda>ext. suffix ext (href a)) media_extensions
      \<and> \<not> list_ex (\<lambda>ext. suffix ext (href a)) document_extensions
      \<and> h = hash_response w (length (effects (fetcher ls))) full_url
      \<and> fresh = (key \<noteq> [] \<and> key \<notin> seen_keys (fetcher ls) \<and> truthy h
                  \<and> h \<notin> set (map snd (seen_links (fetcher ls)))) \<longrightarrow>
        fst (process_href w a ls) = None
      \<and> seen_links (fetcher (snd (process_href w a ls))) =
          (if fresh then AList.update key h (seen_links (fetcher ls)) else seen_links (fetcher ls))
      \<and> relevant_links (fetcher (snd (process_href w a ls))) =
          (if fresh then AList.update key full_url (relevant_links (fetcher ls))
           else relevant_links (fetcher ls)))
   \<and> (normalize_url (stdlib w) url None = Inr key \<and> key \<in> seen_keys st \<longrightarrow>
        seed_frontier w url st = (Inr False, st))
   \<and> (normalize_url (stdlib w) url None = Inr key \<and> key \<notin> seen_keys st
      \<and> h1 = hash_response w (length (effects st)) url \<and> truthy h1 \<longrightarrow>
        fst (seed_frontier w url st) = Inr (h1 \<notin> set (map snd (seen_links st)))
      \<and> (h1 \<in> set (map snd (seen_links st)) \<longrightarrow>
            seen_links (snd (seed_frontier w url st)) = seen_links st
          \<and> relevant_links (snd (seed_frontier w url st)) = relevant_links st)
      \<and> (h1 \<notin> set (map snd (seen_links st)) \<longrightarrow>
            seen_keys (snd (seed_frontier w url st)) = insert key (seen_keys st)
          \<and> relevant_links (snd (seed_frontier w url st)) =
              AList.update key url (relevant_links st)))"
proof (intro conjI impI)
  assume a: "urljoin (stdlib w) (current_url (fetcher ls)) (href a) = Inr full_url
      \<and> normalize_url (stdlib w) full_url None = Inr key
      \<and> \<not> list_ex (\<lambda>ext. suffix ext (href a)) media_extensions
      \<and> \<not> list_ex (\<lambda>ext. suffix ext (href a)) document_extensions
      \<and> h = hash_response w (length (effects (fetcher ls))) full_url
      \<and> fresh = (key \<noteq> [] \<and> key \<notin> seen_keys (fetcher ls) \<and> truthy h
                  \<and> h \<notin> set (map snd (seen_links (fetcher ls))))"
  then show "fst (process_href w a ls) = None"
    by (simp add: process_href_def Let_def fetch_and_hash_content_def seen_keys_def)
  from a show "seen_links (fetcher (snd (process_href w a ls))) =
          (if fresh then AList.update key h (seen_links (fetcher ls)) else seen_links (fetcher ls))"
    by (auto simp: process_href_def Let_def fetch_and_hash_content_def seen_keys_def)
  from a show "relevant_links (fetcher (snd (process_href w a ls))) =
          (if fresh then AList.update key full_url (relevant_links (fetcher ls))
           else relevant_links (fetcher ls))"
    by (auto simp: process_href_def Let_def fetch_and_hash_content_def seen_keys_def)
next
  assume "normalize_url (stdlib w) url None = Inr key \<and> key \<in> seen_keys st"
  then show "seed_frontier w url st = (Inr False, st)"
    by (simp add: seed_frontier_def seen_keys_def)
next
  assume b: "normalize_url (stdlib w) url None = Inr key \<and> key \<notin> seen_keys st
      \<and> h1 = hash_response w (length (effects st)) url \<and> truthy h1"
  then show "fst (seed_frontier w url st) = Inr (h1 \<notin> set (map snd (seen_links st)))"
    by (simp add: seed_frontier_def Let_def fetch_and_hash_content_def seen_keys_def)
  {
    assume "h1 \<in> set (map snd (seen_links st))"
    with b show "seen_links (snd (seed_frontier w url st)) = seen_links st"
      and "relevant_links (snd (seed_frontier w url st)) = relevant_links st"
      by (simp_all add: seed_frontier_def Let_def fetch_and_hash_content_def seen_keys_def)
  }
  {
    assume "h1 \<notin> set (map snd (seen_links st))"
    with b show "seen_keys (snd (seed_frontier w url st)) = insert key (seen_keys st)"
      and "relevant_links (snd (seed_frontier w url st)) =
              AList.update key url (relevant_links st)"
      by (simp_all add: seed_frontier_def Let_def fetch_and_hash_content_def seen_keys_def
          dom_update)
  }
qed

text \<open>A new link with a fingerprint, a seed already seen and a new seed.\<close>

theorem dedup_decision_witness:
  "fst (process_href foreign_link_site
          \<lparr>href = ''http://example.com/x'', description = ''elsewhere''\<rparr> home_links) = None
   \<and> seen_links (fetcher (snd (process_href foreign_link_site
          \<lparr>href = ''http://example.com/x'', description = ''elsewhere''\<rparr> home_links)))
       = AList.update ''http://example.com/x'' (Some ''digest of http://example.com/x'')
           (seen_links (fetcher home_links))
   \<and> ''http://nitj.ac.in'' \<in> seen_keys after_timeout_run
   \<and> seed_frontier timeout_site ''http://nitj.ac.in/'' after_timeout_run
       = (Inr False, after_timeout_run)
   \<and> ''http://nitj.ac.in'' \<notin> seen_keys fresh_fetcher
   \<and> fst (seed_frontier timeout_site ''http://nitj.ac.in/'' fresh_fetcher) = Inr True
   \<and> seen_keys (snd (seed_frontier timeout_site ''http://nitj.ac.in/'' fresh_fetcher))
       = insert ''http://nitj.ac.in'' (seen_keys fresh_fetcher)"
proof -
  let ?a = "\<lparr>href = ''http://example.com/x'', description = ''elsewhere''\<rparr>"
  let ?h = "Some ''digest of http://example.com/x''"
  have 1: "urljoin (stdlib foreign_link_site) (current_url (fetcher home_links)) (href ?a)
        = Inr ''http://example.com/x''
      \<and> normalize_url (stdlib foreign_link_site) ''http://example.com/x'' None
        = Inr ''http://example.com/x''
      \<and> \<not> list_ex (\<lambda>ext. suffix ext (href ?a)) media_extensions
      \<and> \<not> list_ex (\<lambda>ext. suffix ext (href ?a)) document_extensions
      \<and> ?h = hash_response foreign_link_site (length (effects (fetcher home_links)))
               ''http://example.com/x''
      \<and> True = (''http://example.com/x'' \<noteq> [] \<and> ''http://example.com/x'' \<notin> seen_keys (fetcher home_links)
                 \<and> truthy ?h \<and> ?h \<notin> set (map snd (seen_links (fetcher home_links))))"
    by (intro conjI; code_simp)
  from dedup_decision[where w=foreign_link_site and a="?a" and ls=home_links
      and full_url="''http://example.com/x''" and key="''http://example.com/x''"
      and h="?h" and fresh=True, THEN conjunct1, rule_format, OF 1]
  have c1: "fst (process_href foreign_link_site ?a home_links) = None
      \<and> seen_links (fetcher (snd (process_href foreign_link_site ?a home_links)))
          = AList.update ''http://example.com/x'' ?h (seen_links (fetcher home_links))"
    by (simp only: if_True)
  have 2: "normalize_url (stdlib timeout_site) ''http://nitj.ac.in/'' None = Inr ''http://nitj.ac.in''
      \<and> ''http://nitj.ac.in'' \<in> seen_keys after_timeout_run"
    by (intro conjI; code_simp)
  from dedup_decision[where w=timeout_site and url="''http://nitj.ac.in/''"
      and key="''http://nitj.ac.in''" and st=after_timeout_run,
      THEN conjunct2, THEN conjunct1, rule_format, OF 2]
  have c2: "seed_frontier timeout_site ''http://nitj.ac.in/'' after_timeout_run
       = (Inr False, after_timeout_run)"
    by blast
  let ?h1 = "Some ''digest of http://nitj.ac.in/''"
  have 3: "normalize_url (stdlib timeout_site) ''http://nitj.ac.in/'' None = Inr ''http://nitj.ac.in''
      \<and> ''http://nitj.ac.in'' \<notin> seen_keys fresh_fetcher
      \<and> ?h1 = hash_response timeout_site (length (effects fresh_fetcher)) ''http://nitj.ac.in/''
      \<and> truthy ?h1"
    by (intro conjI; code_simp)
  have 4: "?h1 \<notin> set (map snd (seen_links fresh_fetcher))" by code_simp
  from dedup_decision[where w=timeout_site and url="''http://nitj.ac.in/''"
      and key="''http://nitj.ac.in''" and st=fresh_fetcher and ?h1.0="?h1",
      THEN conjunct2, THEN conjunct2, rule_format, OF 3] 4
  have c3: "fst (seed_frontier timeout_site ''http://nitj.ac.in/'' fresh_fetcher) = Inr True
      \<and> seen_keys (snd (seed_frontier timeout_site ''http://nitj.ac.in/'' fresh_fetcher))
          = insert ''http://nitj.ac.in'' (seen_keys fresh_fetcher)"
    by simp
  from c1 c2 c3 2 3 show ?thesis by blast
qed

text \<open>
  C5 as stated fails: after the crawl of a seed whose fingerprint requests failed,
  \<open>seen_links\<close> holds the value \<open>None\<close>. A second seed with a new key and no fingerprint is
  then judged seen, and is not recorded.
\<close>

theorem absent_fingerprint_judged_seen:
  "map_option (seen_links \<circ> snd)
        (process_url 2 no_fingerprint_site ''http://nitj.ac.in/a'' fresh_fetcher)
     = Some [(''http://nitj.ac.in/a'', None)]
   \<and> normalize_url (stdlib no_fingerprint_site) ''http://nitj.ac.in/b'' None
     = Inr ''http://nitj.ac.in/b''
   \<and> ''http://nitj.ac.in/b'' \<notin> seen_keys after_unfingerprinted_seed
   \<and> hash_response no_fingerprint_site (length (effects after_unfingerprinted_seed))
        ''http://nitj.ac.in/b'' = None
   \<and> fst (seed_frontier no_fingerprint_site ''http://nitj.ac.in/b'' after_unfingerprinted_seed)
     = Inr False
   \<and> seen_links (snd (seed_frontier no_fingerprint_site ''http://nitj.ac.in/b''
                        after_unfingerprinted_seed))
     = [(''http://nitj.ac.in/a'', None)]"
  by (intro conjI; code_simp)

subsection \<open>Documents linked with a fragment\<close>

lemma known_document_skipped:
  assumes "get_name_from_url (stdlib w) (name_counter ls) full_url = Inr (name, c)"
    and "replace_char CHR ''/'' CHR ''_'' name
           \<in> set (map fst (dict_get (downloadables (fetcher ls)) ''pdf'' []))"
  shows "handle_downloadable w full_url a_text ls = (None, ls\<lparr>name_counter := c\<rparr>)"
  using assms by (simp add: handle_downloadable_def Let_def)

text \<open>
  C6. A link that is recognised as a document and whose derived filename is registered is
  skipped, as the lemma above says. But the fragment defeats the recognition:
  \<open>http://nitj.ac.in/doc.pdf\<close> and \<open>http://nitj.ac.in/doc.pdf#section2\<close> have the same
  derived filename \<open>doc\<close>, and in the crawl of \<open>document_site\<close> the document is downloaded
  from the home page; the link with the fragment on the later page does not end in \<open>.pdf\<close>,
  so it is not compared with the downloaded names: it is fingerprinted, recorded in
  \<open>seen_links\<close>, probed and loaded as a page, and \<open>extracted_data\<close> gets a record for it.
\<close>

theorem fragment_link_not_skipped:
  "get_name_from_url (stdlib document_site) 1 ''http://nitj.ac.in/doc.pdf'' = Inr (''doc'', 1)
   \<and> get_name_from_url (stdlib document_site) 1 ''http://nitj.ac.in/doc.pdf#section2''
     = Inr (''doc'', 1)
   \<and> map_option (effects \<circ> snd)
        (process_url 3 document_site ''http://nitj.ac.in/'' fresh_fetcher)
     = Some [HashGet ''http://nitj.ac.in/'', HashGet ''http://nitj.ac.in/'',
             HeadProbe ''http://nitj.ac.in/'', PageGet ''http://nitj.ac.in/'',
             Download ''http://nitj.ac.in/doc.pdf'',
             HashGet ''http://nitj.ac.in/later'',
             HeadProbe ''http://nitj.ac.in/later'', PageGet ''http://nitj.ac.in/later'',
             HashGet ''http://nitj.ac.in/doc.pdf#section2'',
             HeadProbe ''http://nitj.ac.in/doc.pdf#section2'',
             PageGet ''http://nitj.ac.in/doc.pdf#section2'']
   \<and> map_option (map fst \<circ> seen_links \<circ> snd)
        (process_url 3 document_site ''http://nitj.ac.in/'' fresh_fetcher)
     = Some [''http://nitj.ac.in'', ''http://nitj.ac.in/later'', ''http://nitj.ac.in/doc.pdf'']
   \<and> map_option (map fst \<circ> extracted_data \<circ> snd)
        (process_url 3 document_site ''http://nitj.ac.in/'' fresh_fetcher)
     = Some [''http://nitj.ac.in'', ''http://nitj.ac.in/later'', ''http://nitj.ac.in/doc.pdf'']"
  by (intro conjI; code_simp)

subsection \<open>The fingerprint of the seed\<close>

lemma seed_two_requests:
  assumes "normalize_url (stdlib w) url None = Inr key"
    and "key \<notin> seen_keys st"
    and "hash_response w (length (effects st)) url \<notin> set (map snd (seen_links st))"
  shows "effects (snd (seed_frontier w url st)) = effects st @ [HashGet url, HashGet url]
    \<and> map_of (seen_links (snd (seed_frontier w url st))) key
        = Some (hash_response w (Suc (length (effects st))) url)"
  using assms
  by (simp add: seed_frontier_def Let_def fetch_and_hash_content_def seen_keys_def update_conv')

text \<open>
  C9. For a new seed \<open>fetch_and_hash_content\<close> is called twice, as the lemma above says: the
  duplicate test uses the first answer, and the second one is recorded. On a site whose body
  changes between the two requests, the recorded fingerprint is not the one that was tested.
  (For a link of a page there is one request, and its answer is the one recorded.)
\<close>

theorem seed_fingerprinted_twice:
  "hash_response changing_site 0 ''http://nitj.ac.in/'' = Some ''digest one''
   \<and> effects (snd (seed_frontier changing_site ''http://nitj.ac.in/'' fresh_fetcher))
     = [HashGet ''http://nitj.ac.in/'', HashGet ''http://nitj.ac.in/'']
   \<and> seen_links (snd (seed_frontier changing_site ''http://nitj.ac.in/'' fresh_fetcher))
     = [(''http://nitj.ac.in'', Some ''digest two'')]
   \<and> map_option (effects \<circ> snd)
        (process_url 2 changing_site ''http://nitj.ac.in/'' fresh_fetcher)
     = Some [HashGet ''http://nitj.ac.in/'', HashGet ''http://nitj.ac.in/'',
             HeadProbe ''http://nitj.ac.in/'', PageGet ''http://nitj.ac.in/'']"
  by (intro conjI; code_simp)

end
